theory Spec2Isabelle
  imports Complex_Main "HOL-Library.Multiset" "HOL-Library.Sublist"
begin

section \<open>Values shared by the modules\<close>

text \<open>
  A Python \<open>str\<close> is a sequence of Unicode code points, so it is modelled as a list of
  code points; \<open>ascii\<close> writes an ASCII literal of the source.
\<close>

type_synonym str = "nat list"

definition ascii :: "string \<Rightarrow> str" where
  "ascii s = map of_char s"

text \<open>The exceptions the modelled code can raise or let through.\<close>

datatype error =
    KeyError str
  | AttributeError
  | IndexError
  | ModelLoadError str
  | BackendError
  | JSONDecodeError
  | NotImplementedError

section \<open>rag/model\_cache.py\<close>

text \<open>
  The two model classes are external. A loaded model is an object: it has an identity
  (\<open>e_id\<close>, \<open>ce_id\<close>, the allocation number of the instance) and the one method the
  pipeline calls on it. \<open>SentenceTransformer(name)\<close> and \<open>CrossEncoder(name)\<close> either
  raise or give the behaviour of the model with that name; the environment \<open>loaders\<close>
  says which. A loaded model's \<open>encode\<close> and \<open>predict\<close> are taken to return: an
  exception of the model itself would pass through the callers unchanged, and no
  property below is about it. How many results they return is left open.
\<close>

type_synonym vec = "real list"

record sentence_transformer =
  e_id :: nat
  encode :: "str list \<Rightarrow> vec list"

record cross_encoder =
  ce_id :: nat
  predict :: "(str \<times> str) list \<Rightarrow> real list"

record loaders =
  SentenceTransformer :: "str \<Rightarrow> error + (str list \<Rightarrow> vec list)"
  CrossEncoder :: "str \<Rightarrow> error + ((str \<times> str) list \<Rightarrow> real list)"

text \<open>
  The module globals \<open>_embedding_model\<close>, \<open>_rerank_model\<close>, \<open>_embedding_model_name\<close>
  and \<open>_rerank_model_name\<close> (an identifier cannot start with an underscore here, hence
  the prefix \<open>g_\<close>), together with the number of objects constructed so far and the
  names the two constructors were called with, oldest first.
\<close>

record cache =
  g_embedding_model :: "sentence_transformer option"
  g_rerank_model :: "cross_encoder option"
  g_embedding_model_name :: "str option"
  g_rerank_model_name :: "str option"
  constructed :: nat
  load_calls :: "str list"

text \<open>
  Lines 20 to 23 of \<open>get_embedding_model\<close>: the constructor is called first; when it
  raises, neither global has been assigned.
\<close>

definition load_embedding_model ::
  "loaders \<Rightarrow> str \<Rightarrow> cache \<Rightarrow> (error + sentence_transformer) \<times> cache" where
  "load_embedding_model env model_name s =
     (let s1 = s\<lparr>load_calls := load_calls s @ [model_name]\<rparr> in
      case SentenceTransformer env model_name of
        Inl e \<Rightarrow> (Inl e, s1)
      | Inr f \<Rightarrow>
          (let m = \<lparr>e_id = constructed s1, encode = f\<rparr>;
               s2 = s1\<lparr>constructed := Suc (constructed s1)\<rparr>;
               s3 = s2\<lparr>g_embedding_model := Some m\<rparr>;
               s4 = s3\<lparr>g_embedding_model_name := Some model_name\<rparr>
           in (Inr m, s4)))"

definition get_embedding_model ::
  "loaders \<Rightarrow> str \<Rightarrow> cache \<Rightarrow> (error + sentence_transformer) \<times> cache" where
  "get_embedding_model env model_name s =
     (case g_embedding_model s of
        None \<Rightarrow> load_embedding_model env model_name s
      | Some m \<Rightarrow>
          if g_embedding_model_name s \<noteq> Some model_name
          then load_embedding_model env model_name s
          else (Inr m, s))"

definition RERANK_MODEL_ALIASES :: "(str \<times> str) list" where
  "RERANK_MODEL_ALIASES =
     [(ascii ''fast'', ascii ''cross-encoder/ms-marco-MiniLM-L-6-v2''),
      (ascii ''balanced'', ascii ''BAAI/bge-reranker-base''),
      (ascii ''best'', ascii ''BAAI/bge-reranker-large''),
      (ascii ''latest'', ascii ''mixedbread-ai/mxbai-rerank-large-v1'')]"

text \<open>\<open>d.get(k, default)\<close> on a dict given as its items.\<close>

definition dict_get :: "('k \<times> 'v) list \<Rightarrow> 'k \<Rightarrow> 'v \<Rightarrow> 'v" where
  "dict_get d k dflt = (case map_of d k of Some v \<Rightarrow> v | None \<Rightarrow> dflt)"

text \<open>Lines 51 to 54 of \<open>get_rerank_model\<close>, on the resolved name.\<close>

definition load_rerank_model ::
  "loaders \<Rightarrow> str \<Rightarrow> cache \<Rightarrow> (error + cross_encoder) \<times> cache" where
  "load_rerank_model env actual_model_name s =
     (let s1 = s\<lparr>load_calls := load_calls s @ [actual_model_name]\<rparr> in
      case CrossEncoder env actual_model_name of
        Inl e \<Rightarrow> (Inl e, s1)
      | Inr f \<Rightarrow>
          (let m = \<lparr>ce_id = constructed s1, predict = f\<rparr>;
               s2 = s1\<lparr>constructed := Suc (constructed s1)\<rparr>;
               s3 = s2\<lparr>g_rerank_model := Some m\<rparr>;
               s4 = s3\<lparr>g_rerank_model_name := Some actual_model_name\<rparr>
           in (Inr m, s4)))"

definition get_rerank_model ::
  "loaders \<Rightarrow> str \<Rightarrow> cache \<Rightarrow> (error + cross_encoder) \<times> cache" where
  "get_rerank_model env model_name s =
     (let actual_model_name = dict_get RERANK_MODEL_ALIASES model_name model_name in
      case g_rerank_model s of
        None \<Rightarrow> load_rerank_model env actual_model_name s
      | Some m \<Rightarrow>
          if g_rerank_model_name s \<noteq> Some actual_model_name
          then load_rerank_model env actual_model_name s
          else (Inr m, s))"

definition clear_cache :: "cache \<Rightarrow> cache" where
  "clear_cache s =
     s\<lparr>g_embedding_model := None, g_rerank_model := None,
       g_embedding_model_name := None, g_rerank_model_name := None\<rparr>"

text \<open>The module's initial state (lines 9 to 12): nothing is cached.\<close>

definition initial_cache :: cache where
  "initial_cache =
     \<lparr>g_embedding_model = None, g_rerank_model = None,
      g_embedding_model_name = None, g_rerank_model_name = None,
      constructed = 0, load_calls = []\<rparr>"

text \<open>
  Object identity: a cached handle was constructed earlier, so its number lies below the
  count of constructed objects. This holds initially and is kept by every operation.
\<close>

definition cache_ok :: "cache \<Rightarrow> bool" where
  "cache_ok s =
     ((case g_embedding_model s of None \<Rightarrow> True | Some m \<Rightarrow> e_id m < constructed s) \<and>
      (case g_rerank_model s of None \<Rightarrow> True | Some m \<Rightarrow> ce_id m < constructed s))"

text \<open>
  An environment for concrete runs: the name \<open>bad\<close> cannot be loaded, every other name
  gives a model that scores a text by its length.
\<close>

definition demo_encode :: "str list \<Rightarrow> vec list" where
  "demo_encode = (\<lambda>ts. map (\<lambda>t. [real (length t)]) ts)"

definition demo_predict :: "(str \<times> str) list \<Rightarrow> real list" where
  "demo_predict = (\<lambda>ps. map (\<lambda>p. real (length (snd p))) ps)"

definition demo_loaders :: loaders where
  "demo_loaders =
     \<lparr>SentenceTransformer =
        (\<lambda>n. if n = ascii ''bad'' then Inl (ModelLoadError n) else Inr demo_encode),
      CrossEncoder =
        (\<lambda>n. if n = ascii ''bad'' then Inl (ModelLoadError n) else Inr demo_predict)\<rparr>"

text \<open>The cache after \<open>get_embedding_model\<close> loaded the name \<open>a\<close> into the initial state.\<close>

definition cache_a :: cache where
  "cache_a =
     \<lparr>g_embedding_model = Some \<lparr>e_id = 0, encode = demo_encode\<rparr>,
      g_rerank_model = None,
      g_embedding_model_name = Some (ascii ''a''),
      g_rerank_model_name = None,
      constructed = 1, load_calls = [ascii ''a'']\<rparr>"

text \<open>The cache after \<open>get_rerank_model\<close> loaded the alias \<open>fast\<close> into the initial state.\<close>

definition cache_fast :: cache where
  "cache_fast =
     \<lparr>g_embedding_model = None,
      g_rerank_model = Some \<lparr>ce_id = 0, predict = demo_predict\<rparr>,
      g_embedding_model_name = None,
      g_rerank_model_name = Some (ascii ''cross-encoder/ms-marco-MiniLM-L-6-v2''),
      constructed = 1, load_calls = [ascii ''cross-encoder/ms-marco-MiniLM-L-6-v2'']\<rparr>"

text \<open>A state in which both slots hold a model.\<close>

definition warm_cache :: cache where
  "warm_cache =
     \<lparr>g_embedding_model = Some \<lparr>e_id = 0, encode = demo_encode\<rparr>,
      g_rerank_model = Some \<lparr>ce_id = 1, predict = demo_predict\<rparr>,
      g_embedding_model_name = Some (ascii ''a''),
      g_rerank_model_name = Some (ascii ''BAAI/bge-reranker-large''),
      constructed = 2, load_calls = [ascii ''a'', ascii ''BAAI/bge-reranker-large'']\<rparr>"


section \<open>Python values used by the pipeline\<close>

text \<open>
  A chunk is a dict with string keys. The functions modelled here read the key
  \<open>"text"\<close> (\<open>c["text"]\<close> raises \<open>KeyError\<close> when it is absent, \<open>chunk.get("text", "")\<close>
  does not) and read and write the key \<open>"rerank_score"\<close>; for these two the field is
  \<open>None\<close> when the dict does not have the key. The other keys are only carried along.
  Scores and distances are floats; they are modelled as the real numbers they denote,
  so a NaN score, on which Python's comparison is not an order, is outside the model.
\<close>

record chunk =
  c_id :: str
  c_text :: "str option"
  c_metadata :: "(str \<times> str) list"
  c_source :: str
  c_chunk_index :: int
  c_order :: int
  c_distance :: real
  c_rerank_score :: "real option"

text \<open>\<open>xs[:n]\<close> for an integer \<open>n\<close>: a negative \<open>n\<close> counts from the end.\<close>

definition slice_to :: "'a list \<Rightarrow> int \<Rightarrow> 'a list" where
  "slice_to xs n = (if 0 \<le> n then take (nat n) xs else take (nat (int (length xs) + n)) xs)"

text \<open>
  \<open>sorted(xs, key=key, reverse=reverse)\<close>. The key function is called once on every
  element, in order, before anything is compared, so an exception of the key function is
  the result. The sort is stable; with \<open>reverse=True\<close> CPython reverses the list, sorts
  it stably in ascending order and reverses the result, which keeps elements with equal
  keys in their original order.
\<close>

fun keys_of :: "('a \<Rightarrow> error + 'k) \<Rightarrow> 'a list \<Rightarrow> error + ('k \<times> 'a) list" where
  "keys_of key [] = Inr []"
| "keys_of key (x # xs) =
     (case key x of
        Inl e \<Rightarrow> Inl e
      | Inr k \<Rightarrow> (case keys_of key xs of Inl e \<Rightarrow> Inl e | Inr kxs \<Rightarrow> Inr ((k, x) # kxs)))"

definition py_sorted :: "('a \<Rightarrow> error + 'k::linorder) \<Rightarrow> bool \<Rightarrow> 'a list \<Rightarrow> error + 'a list" where
  "py_sorted key reverse xs =
     (case keys_of key xs of
        Inl e \<Rightarrow> Inl e
      | Inr kxs \<Rightarrow>
          Inr (map snd (if reverse then rev (sort_key fst (rev kxs)) else sort_key fst kxs)))"

text \<open>
  \<open>str.strip()\<close> with no argument removes leading and trailing whitespace; these are
  the code points for which \<open>str.isspace\<close> holds.
\<close>

definition py_isspace :: "nat \<Rightarrow> bool" where
  "py_isspace c =
     (c \<in> set [9, 10, 11, 12, 13, 28, 29, 30, 31, 32, 133, 160, 5760,
                8192, 8193, 8194, 8195, 8196, 8197, 8198, 8199, 8200, 8201, 8202,
                8232, 8233, 8239, 8287, 12288])"

definition py_strip :: "str \<Rightarrow> str" where
  "py_strip s = rev (dropWhile py_isspace (rev (dropWhile py_isspace s)))"

section \<open>rag/query\_improved.py\<close>

subsection \<open>Objects and effects\<close>

text \<open>
  \<open>RagQueryEngine.rerank\<close> writes into the dicts of the list it is given, so dicts and
  lists are objects in a store: an address holds a chunk dict or a list of addresses of
  dicts, and \<open>next_dict\<close>, \<open>next_list\<close> are the first addresses not yet allocated. The
  world also records, oldest first, the calls of the engine's methods and of its
  collaborators (embedding model, database cursor, cross-encoder, generator), and holds
  the clock that \<open>time.time()\<close> reads: \<open>clock n\<close> is the value of the \<open>n\<close>-th reading.
  What the methods print is not modelled.
\<close>

type_synonym addr = nat

datatype call =
    Call_retrieve_candidates str
  | Call_encode "str list"
  | Call_execute vec int
  | Call_rerank str addr
  | Call_predict "(str \<times> str) list"
  | Call_llm str addr

record world =
  dicts :: "addr \<Rightarrow> chunk"
  lists :: "addr \<Rightarrow> addr list"
  next_dict :: addr
  next_list :: addr
  calls :: "call list"
  clock :: "nat \<Rightarrow> real"
  ticks :: nat

definition log_call :: "call \<Rightarrow> world \<Rightarrow> world" where
  "log_call c w = w\<lparr>calls := calls w @ [c]\<rparr>"

definition new_dict :: "chunk \<Rightarrow> world \<Rightarrow> addr \<times> world" where
  "new_dict d w =
     (next_dict w, w\<lparr>dicts := (dicts w)(next_dict w := d), next_dict := Suc (next_dict w)\<rparr>)"

definition new_list :: "addr list \<Rightarrow> world \<Rightarrow> addr \<times> world" where
  "new_list xs w =
     (next_list w, w\<lparr>lists := (lists w)(next_list w := xs), next_list := Suc (next_list w)\<rparr>)"

definition list_append :: "addr \<Rightarrow> addr \<Rightarrow> world \<Rightarrow> world" where
  "list_append l a w = w\<lparr>lists := (lists w)(l := lists w l @ [a])\<rparr>"

definition time_time :: "world \<Rightarrow> real \<times> world" where
  "time_time w = (clock w (ticks w), w\<lparr>ticks := Suc (ticks w)\<rparr>)"

subsection \<open>The vector store behind the connection\<close>

text \<open>
  The database is external. Its table \<open>knowledge_chunks\<close>, the value its operator
  \<open><=>\<close> reports and what it answers to the statement of lines 102 to 114 are
  parameters: \<open>fetch c q k\<close> is the reply to \<open>cursor.execute\<close> and \<open>cursor.fetchall\<close>
  for the query vector \<open>q\<close> and the limit \<open>k\<close>, an exception of the database or the
  fetched tuples in the order the database gives them. The repository builds an
  approximate \<open>ivfflat\<close> index on the embedding column
  (\<open>scripts/optimize_database_index.py\<close>) and the query relies on it, so the order and
  the choice of the rows in a reply are the index's and are not computed here. A column
  that can be NULL is an option; \<open>id\<close> and \<open>text\<close> are given a value by every insert of
  the repository. The metadata column arrives as a dict, as JSON text or as NULL.
\<close>

datatype metadata_value = Meta_dict "(str \<times> str) list" | Meta_text str | Meta_null

record row =
  r_id :: str
  r_text :: str
  r_metadata :: metadata_value
  r_source :: "str option"
  r_order :: "int option"
  r_embedding :: "vec option"

text \<open>One fetched tuple \<open>(id, text, metadata, source, order, distance)\<close>.\<close>

record fetched =
  f_id :: str
  f_text :: str
  f_metadata :: metadata_value
  f_source :: "str option"
  f_order :: "int option"
  f_distance :: real

record connection =
  knowledge_chunks :: "row list"
  vector_distance :: "vec \<Rightarrow> vec \<Rightarrow> real"
  fetch :: "vec \<Rightarrow> int \<Rightarrow> error + fetched list"

record engine =
  conn :: connection
  embed_model :: sentence_transformer
  rerank_model :: cross_encoder
  top_k_retrieve :: int
  top_n_rerank :: int

subsection \<open>retrieve\_candidates\<close>

text \<open>
  \<open>metadata if isinstance(metadata, dict) else json.loads(metadata) if metadata else {}\<close>;
  \<open>json.loads\<close> is a library function and a parameter here. An empty string is falsy.
\<close>

definition metadata_dict ::
  "(str \<Rightarrow> error + (str \<times> str) list) \<Rightarrow> metadata_value \<Rightarrow> error + (str \<times> str) list" where
  "metadata_dict json_loads m =
     (case m of
        Meta_dict d \<Rightarrow> Inr d
      | Meta_text s \<Rightarrow> (if s \<noteq> [] then json_loads s else Inr [])
      | Meta_null \<Rightarrow> Inr [])"

text \<open>\<open>source or "unknown"\<close> and \<open>order or 0\<close>.\<close>

definition source_or_unknown :: "str option \<Rightarrow> str" where
  "source_or_unknown s =
     (case s of None \<Rightarrow> ascii ''unknown'' | Some t \<Rightarrow> (if t = [] then ascii ''unknown'' else t))"

definition order_or_0 :: "int option \<Rightarrow> int" where
  "order_or_0 n = (case n of None \<Rightarrow> 0 | Some i \<Rightarrow> i)"

text \<open>The dict built from one fetched tuple (lines 118 to 129).\<close>

definition candidate_of :: "fetched \<Rightarrow> (str \<times> str) list \<Rightarrow> chunk" where
  "candidate_of f metadata_dict_value =
     \<lparr>c_id = f_id f, c_text = Some (f_text f), c_metadata = metadata_dict_value,
      c_source = source_or_unknown (f_source f),
      c_chunk_index = order_or_0 (f_order f), c_order = order_or_0 (f_order f),
      c_distance = f_distance f, c_rerank_score = None\<rparr>"

text \<open>The loop over \<open>cursor.fetchall()\<close>, appending to the list \<open>candidates\<close>.\<close>

fun append_rows ::
  "(str \<Rightarrow> error + (str \<times> str) list) \<Rightarrow> addr \<Rightarrow> fetched list \<Rightarrow> world \<Rightarrow>
   (error + unit) \<times> world" where
  "append_rows json_loads candidates [] w = (Inr (), w)"
| "append_rows json_loads candidates (f # rest) w =
     (case metadata_dict json_loads (f_metadata f) of
        Inl e \<Rightarrow> (Inl e, w)
      | Inr md \<Rightarrow>
          (case new_dict (candidate_of f md) w of
             (a, w1) \<Rightarrow> append_rows json_loads candidates rest (list_append candidates a w1)))"

definition retrieve_candidates ::
  "(str \<Rightarrow> error + (str \<times> str) list) \<Rightarrow> engine \<Rightarrow> str \<Rightarrow> world \<Rightarrow>
   (error + addr) \<times> world" where
  "retrieve_candidates json_loads self question w =
     (let w0 = log_call (Call_retrieve_candidates question) w;
          w1 = log_call (Call_encode [question]) w0 in
      case encode (embed_model self) [question] of
        [] \<Rightarrow> (Inl IndexError, w1)
      | q_emb # _ \<Rightarrow>
          (let w2 = log_call (Call_execute q_emb (top_k_retrieve self)) w1 in
           case fetch (conn self) q_emb (top_k_retrieve self) of
             Inl e \<Rightarrow> (Inl e, w2)
           | Inr rows \<Rightarrow>
               (case new_list [] w2 of
                  (candidates, w3) \<Rightarrow>
                    (case append_rows json_loads candidates rows w3 of
                       (Inl e, w4) \<Rightarrow> (Inl e, w4)
                     | (Inr _, w4) \<Rightarrow> (Inr candidates, w4)))))"

subsection \<open>rerank\<close>

text \<open>\<open>[[question, c["text"]] for c in candidates]\<close>: the first dict without the key raises.\<close>

fun text_pairs :: "str \<Rightarrow> chunk list \<Rightarrow> error + (str \<times> str) list" where
  "text_pairs question [] = Inr []"
| "text_pairs question (c # cs) =
     (case c_text c of
        None \<Rightarrow> Inl (KeyError (ascii ''text''))
      | Some t \<Rightarrow>
          (case text_pairs question cs of
             Inl e \<Rightarrow> Inl e
           | Inr ps \<Rightarrow> Inr ((question, t) # ps)))"

text \<open>
  \<open>for c, s in zip(candidates, scores): c["rerank_score"] = float(s)\<close>: the write goes to
  the dict object, in the store.
\<close>

fun assign_scores :: "(addr \<times> real) list \<Rightarrow> world \<Rightarrow> world" where
  "assign_scores [] w = w"
| "assign_scores ((c, s) # rest) w =
     assign_scores rest (w\<lparr>dicts := (dicts w)(c := (dicts w c)\<lparr>c_rerank_score := Some s\<rparr>)\<rparr>)"

text \<open>\<open>lambda x: x["rerank_score"]\<close> on the dict at an address.\<close>

definition rerank_score_key :: "world \<Rightarrow> addr \<Rightarrow> error + real" where
  "rerank_score_key w a =
     (case c_rerank_score (dicts w a) of
        None \<Rightarrow> Inl (KeyError (ascii ''rerank_score''))
      | Some s \<Rightarrow> Inr s)"

definition rerank :: "engine \<Rightarrow> str \<Rightarrow> addr \<Rightarrow> world \<Rightarrow> (error + addr) \<times> world" where
  "rerank self question candidates w =
     (let w0 = log_call (Call_rerank question candidates) w in
      if lists w0 candidates = [] then
        (case new_list [] w0 of (r, w1) \<Rightarrow> (Inr r, w1))
      else
        (case text_pairs question (map (dicts w0) (lists w0 candidates)) of
           Inl e \<Rightarrow> (Inl e, w0)
         | Inr pairs \<Rightarrow>
             (let w1 = log_call (Call_predict pairs) w0;
                  scores = predict (rerank_model self) pairs;
                  w2 = assign_scores (zip (lists w1 candidates) scores) w1
              in case py_sorted (rerank_score_key w2) True (lists w2 candidates) of
                   Inl e \<Rightarrow> (Inl e, w2)
                 | Inr candidates_sorted \<Rightarrow>
                     (case new_list (slice_to candidates_sorted (top_n_rerank self)) w2 of
                        (r, w3) \<Rightarrow> (Inr r, w3)))))"

subsection \<open>answer\<close>

text \<open>The three sentinel messages (lines 184, 199 and 215), as their code points.\<close>

definition MSG_EMPTY_QUESTION :: str where
  "MSG_EMPTY_QUESTION = [0x5E9, 0x5D0, 0x5DC, 0x5D4, 0x20, 0x5E8, 0x5D9, 0x5E7, 0x5D4, 0x2E]"

definition MSG_NO_CANDIDATES :: str where
  "MSG_NO_CANDIDATES =
     [0x5DC, 0x5D0, 0x20, 0x5E0, 0x5DE, 0x5E6, 0x5D0, 0x5D5, 0x20, 0x5E7, 0x5D8, 0x5E2, 0x5D9,
      0x5DD, 0x20, 0x5E8, 0x5DC, 0x5D5, 0x5D5, 0x5E0, 0x5D8, 0x5D9, 0x5D9, 0x5DD, 0x20, 0x5D1,
      0x5DE, 0x5E1, 0x5DE, 0x5DB, 0x5D9, 0x5DD, 0x2E]"

definition MSG_NOT_RANKED :: str where
  "MSG_NOT_RANKED =
     [0x5DC, 0x5D0, 0x20, 0x5D4, 0x5E6, 0x5DC, 0x5D7, 0x5EA, 0x5D9, 0x20, 0x5DC, 0x5D3, 0x5E8,
      0x5D2, 0x20, 0x5E7, 0x5D8, 0x5E2, 0x5D9, 0x5DD, 0x20, 0x5E8, 0x5DC, 0x5D5, 0x5D5, 0x5E0,
      0x5D8, 0x5D9, 0x5D9, 0x5DD, 0x2E]"

type_synonym timing = "string \<rightharpoonup> real"

type_synonym answer_result = "str \<times> addr \<times> timing option"

text \<open>
  \<open>if measure_time: ... time.time() ...\<close>: the clock is read only with \<open>measure_time\<close>.
\<close>

definition read_timer :: "bool \<Rightarrow> world \<Rightarrow> real \<times> world" where
  "read_timer measure_time w = (if measure_time then time_time w else (0, w))"

text \<open>
  The generator call and what follows it (lines 217 to 229). The generator is the
  caller's function; it sees the question and the dicts of \<open>top_chunks\<close>.
\<close>

definition answer_generate ::
  "(str \<Rightarrow> chunk list \<Rightarrow> error + str) \<Rightarrow> bool \<Rightarrow> str \<Rightarrow> addr \<Rightarrow> timing option \<Rightarrow> real \<Rightarrow>
   world \<Rightarrow> (error + answer_result) \<times> world" where
  "answer_generate llm_callable measure_time question top_chunks timing_info chunks_time w =
     (case read_timer measure_time w of
        (start_llm, w1) \<Rightarrow>
          (let w2 = log_call (Call_llm question top_chunks) w1 in
           case llm_callable question (map (dicts w2) (lists w2 top_chunks)) of
             Inl e \<Rightarrow> (Inl e, w2)
           | Inr answer_text \<Rightarrow>
               (case read_timer measure_time w2 of
                  (end_llm, w3) \<Rightarrow>
                    (Inr (answer_text, top_chunks,
                          map_option
                            (\<lambda>t. t(''llm_time'' \<mapsto> end_llm - start_llm,
                                   ''total_time'' \<mapsto> chunks_time + (end_llm - start_llm)))
                            timing_info),
                     w3))))"

text \<open>The re-ranking stage and what follows it (lines 201 to 229).\<close>

definition answer_rerank ::
  "engine \<Rightarrow> (str \<Rightarrow> chunk list \<Rightarrow> error + str) \<Rightarrow> bool \<Rightarrow> str \<Rightarrow> str \<Rightarrow> addr \<Rightarrow>
   timing option \<Rightarrow> real \<Rightarrow> world \<Rightarrow> (error + answer_result) \<times> world" where
  "answer_rerank self llm_callable measure_time search_query question candidates
      timing_info retrieve_time w =
     (case read_timer measure_time w of
        (start_rerank, w1) \<Rightarrow>
          (case rerank self search_query candidates w1 of
             (Inl e, w2) \<Rightarrow> (Inl e, w2)
           | (Inr top_chunks, w2) \<Rightarrow>
               (case read_timer measure_time w2 of
                  (end_rerank, w3) \<Rightarrow>
                    (let rerank_time = end_rerank - start_rerank;
                         timing_info2 =
                           map_option
                             (\<lambda>t. t(''rerank_time'' \<mapsto> rerank_time,
                                    ''num_final_chunks'' \<mapsto> real (length (lists w3 top_chunks)),
                                    ''total_chunks_time'' \<mapsto> retrieve_time + rerank_time))
                             timing_info
                     in if lists w3 top_chunks = [] then
                          (case new_list [] w3 of
                             (r, w4) \<Rightarrow> (Inr (MSG_NOT_RANKED, r, timing_info2), w4))
                        else
                          answer_generate llm_callable measure_time question top_chunks
                            timing_info2 (retrieve_time + rerank_time) w3))))"

text \<open>
  The body of \<open>answer\<close> from line 181 on, once the two defaults have been resolved:
  \<open>search_query\<close> and \<open>question\<close> are strings here.
\<close>

definition answer_body ::
  "(str \<Rightarrow> error + (str \<times> str) list) \<Rightarrow> engine \<Rightarrow> (str \<Rightarrow> chunk list \<Rightarrow> error + str) \<Rightarrow>
   bool \<Rightarrow> str \<Rightarrow> str \<Rightarrow> world \<Rightarrow> (error + answer_result) \<times> world" where
  "answer_body json_loads self llm_callable measure_time search_query question w =
     (let timing_info = (if measure_time then Some Map.empty else None) in
      if py_strip search_query = [] then
        (case new_list [] w of (r, w1) \<Rightarrow> (Inr (MSG_EMPTY_QUESTION, r, timing_info), w1))
      else
        (case read_timer measure_time w of
           (start_retrieve, w1) \<Rightarrow>
             (case retrieve_candidates json_loads self search_query w1 of
                (Inl e, w2) \<Rightarrow> (Inl e, w2)
              | (Inr candidates, w2) \<Rightarrow>
                  (case read_timer measure_time w2 of
                     (end_retrieve, w3) \<Rightarrow>
                       (let retrieve_time = end_retrieve - start_retrieve;
                            timing_info1 =
                              map_option
                                (\<lambda>t. t(''retrieve_time'' \<mapsto> retrieve_time,
                                       ''num_candidates'' \<mapsto>
                                         real (length (lists w3 candidates))))
                                timing_info
                        in if lists w3 candidates = [] then
                             (case new_list [] w3 of
                                (r, w4) \<Rightarrow> (Inr (MSG_NO_CANDIDATES, r, timing_info1), w4))
                           else
                             answer_rerank self llm_callable measure_time search_query question
                               candidates timing_info1 retrieve_time w3)))))"

text \<open>
  \<open>answer\<close>: both arguments default to \<open>None\<close> and each takes the other's value when it
  is \<open>None\<close> (lines 176 to 179); when both are \<open>None\<close>, \<open>search_query.strip()\<close> raises.
\<close>

definition answer ::
  "(str \<Rightarrow> error + (str \<times> str) list) \<Rightarrow> engine \<Rightarrow> str option \<Rightarrow> str option \<Rightarrow>
   (str \<Rightarrow> chunk list \<Rightarrow> error + str) \<Rightarrow> bool \<Rightarrow> world \<Rightarrow> (error + answer_result) \<times> world" where
  "answer json_loads self search_query question llm_callable measure_time w =
     (case (search_query, question) of
        (None, None) \<Rightarrow> (Inl AttributeError, w)
      | (Some s, None) \<Rightarrow> answer_body json_loads self llm_callable measure_time s s w
      | (None, Some q) \<Rightarrow> answer_body json_loads self llm_callable measure_time q q w
      | (Some s, Some q) \<Rightarrow> answer_body json_loads self llm_callable measure_time s q w)"

text \<open>The default generator, \<open>call_llm_default\<close>, raises \<open>NotImplementedError\<close>.\<close>

definition call_llm_default :: "str \<Rightarrow> chunk list \<Rightarrow> error + str" where
  "call_llm_default question context_chunks = Inl NotImplementedError"

section \<open>rag/rerank\_improved.py\<close>

definition RERANK_MODELS :: "(str \<times> str) list" where
  "RERANK_MODELS =
     [(ascii ''fast'', ascii ''cross-encoder/ms-marco-MiniLM-L-6-v2''),
      (ascii ''balanced'', ascii ''BAAI/bge-reranker-base''),
      (ascii ''best'', ascii ''BAAI/bge-reranker-large''),
      (ascii ''latest'', ascii ''mixedbread-ai/mxbai-rerank-large-v1'')]"

definition DEFAULT_RERANK_MODEL :: str where
  "DEFAULT_RERANK_MODEL = ascii ''fast''"

text \<open>
  Lines 47 to 55 of \<open>rerank_chunks\<close>: the default model, then the alias table of this
  module.
\<close>

definition resolve_model_name :: "str option \<Rightarrow> str" where
  "resolve_model_name model_name =
     (let model_name1 = (case model_name of None \<Rightarrow> DEFAULT_RERANK_MODEL | Some n \<Rightarrow> n)
      in case map_of RERANK_MODELS model_name1 of Some t \<Rightarrow> t | None \<Rightarrow> model_name1)"

text \<open>\<open>[[question, chunk.get("text", "")] for chunk in chunks]\<close>.\<close>

definition get_text_pairs :: "str \<Rightarrow> chunk list \<Rightarrow> (str \<times> str) list" where
  "get_text_pairs question chunks =
     map (\<lambda>chunk. (question, case c_text chunk of None \<Rightarrow> [] | Some t \<Rightarrow> t)) chunks"

text \<open>The loop of lines 71 to 75: each scored chunk is a copy, the input is not written.\<close>

definition scored_copies :: "chunk list \<Rightarrow> real list \<Rightarrow> chunk list" where
  "scored_copies chunks scores =
     map (\<lambda>(chunk, score). chunk\<lparr>c_rerank_score := Some score\<rparr>) (zip chunks scores)"

definition chunk_score_key :: "chunk \<Rightarrow> error + real" where
  "chunk_score_key x =
     (case c_rerank_score x of
        None \<Rightarrow> Inl (KeyError (ascii ''rerank_score''))
      | Some s \<Rightarrow> Inr s)"

text \<open>
  \<open>rerank_chunks\<close>. Its inputs are not mutated and its outputs are fresh dicts, so chunks
  are values here. \<open>batch_size\<close> and \<open>show_progress\<close> are handed to the model and do not
  reach the result.
\<close>

definition rerank_chunks ::
  "loaders \<Rightarrow> str \<Rightarrow> chunk list \<Rightarrow> int \<Rightarrow> str option \<Rightarrow> cache \<Rightarrow>
   (error + chunk list) \<times> cache" where
  "rerank_chunks env question chunks top_n model_name s =
     (if chunks = [] then (Inr [], s)
      else
        (case get_rerank_model env (resolve_model_name model_name) s of
           (Inl e, s1) \<Rightarrow> (Inl e, s1)
         | (Inr reranker, s1) \<Rightarrow>
             (let pairs = get_text_pairs question chunks;
                  scores = predict reranker pairs;
                  scored_chunks = scored_copies chunks scores
              in case py_sorted chunk_score_key True scored_chunks of
                   Inl e \<Rightarrow> (Inl e, s1)
                 | Inr scored_chunks_sorted \<Rightarrow> (Inr (slice_to scored_chunks_sorted top_n), s1))))"

section \<open>Predicates used to state the properties\<close>

text \<open>
  \<open>sorted_desc_by sc xs\<close>: every element of \<open>xs\<close> has a score and the scores do not
  increase along the list.
\<close>

definition sorted_desc_by :: "('a \<Rightarrow> real option) \<Rightarrow> 'a list \<Rightarrow> bool" where
  "sorted_desc_by sc xs =
     ((\<forall>x \<in> set xs. sc x \<noteq> None) \<and>
      sorted_wrt (\<lambda>x y. case (sc x, sc y) of (Some a, Some b) \<Rightarrow> b \<le> a | _ \<Rightarrow> False) xs)"

text \<open>
  \<open>ties_keep_order sc out inp\<close>: for every score that occurs in \<open>out\<close>, the elements of
  \<open>out\<close> with that score are the first elements of \<open>inp\<close> with that score, in the order
  they have in \<open>inp\<close>.
\<close>

definition ties_keep_order :: "('a \<Rightarrow> 'k) \<Rightarrow> 'a list \<Rightarrow> 'a list \<Rightarrow> bool" where
  "ties_keep_order sc out inp =
     (\<forall>k \<in> set (map sc out). prefix (filter (\<lambda>x. sc x = k) out) (filter (\<lambda>x. sc x = k) inp))"



section \<open>Concrete data for runs of the pipeline\<close>

definition demo_chunk :: "string \<Rightarrow> string \<Rightarrow> chunk" where
  "demo_chunk i t =
     \<lparr>c_id = ascii i, c_text = Some (ascii t), c_metadata = [], c_source = ascii ''doc'',
      c_chunk_index = 0, c_order = 0, c_distance = 0, c_rerank_score = None\<rparr>"

text \<open>
  Three dicts, with texts of length 2, 3 and 2; the list at address 0 holds them in the
  order \<open>a, b, c\<close>, the list at address 1 in the order \<open>c, b, a\<close>.
\<close>

definition demo_world :: world where
  "demo_world =
     \<lparr>dicts = (\<lambda>_. demo_chunk [] [])
         (0 := demo_chunk ''a'' ''xx'', 1 := demo_chunk ''b'' ''yyy'', 2 := demo_chunk ''c'' ''zz''),
      lists = (\<lambda>_. [])(0 := [0, 1, 2], 1 := [2, 1, 0]),
      next_dict = 3, next_list = 2, calls = [], clock = (\<lambda>n. real n), ticks = 0\<rparr>"

definition demo_rows :: "row list" where
  "demo_rows =
     [\<lparr>r_id = ascii ''far'', r_text = ascii ''t1'', r_metadata = Meta_null, r_source = None,
       r_order = None, r_embedding = Some [9]\<rparr>,
      \<lparr>r_id = ascii ''none'', r_text = ascii ''t2'', r_metadata = Meta_null, r_source = None,
       r_order = Some 4, r_embedding = None\<rparr>,
      \<lparr>r_id = ascii ''near'', r_text = ascii ''t3'', r_metadata = Meta_dict [],
       r_source = Some (ascii ''s''), r_order = Some 1, r_embedding = Some [1]\<rparr>,
      \<lparr>r_id = ascii ''mid'', r_text = ascii ''t4'', r_metadata = Meta_null, r_source = None,
       r_order = Some 2, r_embedding = Some [3]\<rparr>]"

text \<open>A distance for the runs: the embeddings are one number each.\<close>

definition demo_distance :: "vec \<Rightarrow> vec \<Rightarrow> real" where
  "demo_distance a b = \<bar>sum_list a - sum_list b\<bar>"

text \<open>
  The fetched tuple for a row of the table and a distance, and two replies of the
  database to the query vector \<open>[1]\<close> with limit 2 over \<open>demo_rows\<close>: the two nearest
  rows in ascending distance, as an exact scan gives them, and two rows with an
  embedding in another order, \<open>mid\<close> at distance 2 before \<open>near\<close> at distance 0.
\<close>

definition tuple_of :: "row \<Rightarrow> real \<Rightarrow> fetched" where
  "tuple_of r d =
     \<lparr>f_id = r_id r, f_text = r_text r, f_metadata = r_metadata r, f_source = r_source r,
      f_order = r_order r, f_distance = d\<rparr>"

definition exact_reply :: "fetched list" where
  "exact_reply = [tuple_of (demo_rows ! 2) 0, tuple_of (demo_rows ! 3) 2]"


definition demo_engine :: engine where
  "demo_engine =
     \<lparr>conn = \<lparr>knowledge_chunks = demo_rows, vector_distance = demo_distance,
              fetch = (\<lambda>q k. Inr exact_reply)\<rparr>,
      embed_model = \<lparr>e_id = 0, encode = demo_encode\<rparr>,
      rerank_model = \<lparr>ce_id = 1, predict = demo_predict\<rparr>,
      top_k_retrieve = 2, top_n_rerank = 2\<rparr>"


text \<open>An engine over an empty table.\<close>

definition empty_engine :: engine where
  "empty_engine =
     demo_engine\<lparr>conn := \<lparr>knowledge_chunks = [], vector_distance = demo_distance,
                           fetch = (\<lambda>q k. Inr [])\<rparr>\<rparr>"

definition demo_json_loads :: "str \<Rightarrow> error + (str \<times> str) list" where
  "demo_json_loads s = Inl JSONDecodeError"

definition demo_llm :: "str \<Rightarrow> chunk list \<Rightarrow> error + str" where
  "demo_llm question context_chunks = Inr (ascii ''ok'')"

text \<open>A world whose first dict has an empty text, and a chunk that has no text.\<close>

definition empty_text_world :: world where
  "empty_text_world =
     \<lparr>dicts = (\<lambda>_. demo_chunk [] [])(0 := demo_chunk ''a'' [], 1 := demo_chunk ''b'' ''yyy''),
      lists = (\<lambda>_. [])(0 := [0, 1]),
      next_dict = 2, next_list = 1, calls = [], clock = (\<lambda>n. real n), ticks = 0\<rparr>"

definition textless_chunk :: chunk where
  "textless_chunk = (demo_chunk ''m'' [])\<lparr>c_text := None\<rparr>"

definition textless_world :: world where
  "textless_world =
     \<lparr>dicts = (\<lambda>_. demo_chunk [] [])(0 := demo_chunk ''b'' ''yyy'', 1 := textless_chunk),
      lists = (\<lambda>_. [])(0 := [0, 1]),
      next_dict = 2, next_list = 1, calls = [], clock = (\<lambda>n. real n), ticks = 0\<rparr>"

text \<open>The engine of the runs with \<open>top_n_rerank = 1\<close>, and the score the demo model gives a pair.\<close>

definition top1_engine :: engine where
  "top1_engine = demo_engine\<lparr>top_n_rerank := 1\<rparr>"

definition demo_score :: "str \<times> str \<Rightarrow> real" where
  "demo_score p = real (length (snd p))"

section \<open>Properties of the model cache\<close>

lemma get_embedding_model_hit:
  assumes "get_embedding_model env X s = (Inr m, s1)"
  shows "g_embedding_model s1 = Some m \<and> g_embedding_model_name s1 = Some X"
  using assms
  by (auto simp: get_embedding_model_def load_embedding_model_def Let_def
           split: option.splits if_splits sum.splits)

lemma cache_ok_initial: "cache_ok initial_cache"
  by (simp add: cache_ok_def initial_cache_def)

lemma cache_ok_get_embedding_model:
  assumes "cache_ok s" "get_embedding_model env X s = (r, s1)"
  shows "cache_ok s1"
  using assms
  by (auto simp: get_embedding_model_def load_embedding_model_def Let_def cache_ok_def
           split: option.splits if_splits sum.splits)

lemma cache_ok_get_rerank_model:
  assumes "cache_ok s" "get_rerank_model env X s = (r, s1)"
  shows "cache_ok s1"
  using assms
  by (auto simp: get_rerank_model_def load_rerank_model_def Let_def cache_ok_def
           split: option.splits if_splits sum.splits)

text \<open>
  C5. After a call \<open>get_embedding_model X\<close> that returned the handle \<open>m\<close>, a second call
  with \<open>X\<close> returns the same handle and changes nothing (no constructor call, the slot
  as it was); a call with another name \<open>Y\<close> whose load succeeds constructs a new
  instance (its identity differs from that of \<open>m\<close>), caches it under \<open>Y\<close>, and calls
  the constructor once, with \<open>Y\<close>.
\<close>

theorem get_embedding_model_twice:
  assumes "cache_ok s" and "get_embedding_model env X s = (Inr m, s1)"
  shows "get_embedding_model env X s1 = (Inr m, s1) \<and>
         (\<forall>Y f. Y \<noteq> X \<and> SentenceTransformer env Y = Inr f \<longrightarrow>
            (\<exists>m' s2. get_embedding_model env Y s1 = (Inr m', s2) \<and>
               e_id m' \<noteq> e_id m \<and> encode m' = f \<and>
               g_embedding_model s2 = Some m' \<and> g_embedding_model_name s2 = Some Y \<and>
               load_calls s2 = load_calls s1 @ [Y]))"
proof -
  from assms(2) have hit: "g_embedding_model s1 = Some m" "g_embedding_model_name s1 = Some X"
    using get_embedding_model_hit by blast+
  from assms have "cache_ok s1" by (rule cache_ok_get_embedding_model)
  with hit have fresh: "e_id m < constructed s1" by (simp add: cache_ok_def)
  have same: "get_embedding_model env X s1 = (Inr m, s1)"
    using hit by (simp add: get_embedding_model_def)
  have other: "\<exists>m' s2. get_embedding_model env Y s1 = (Inr m', s2) \<and>
               e_id m' \<noteq> e_id m \<and> encode m' = f \<and>
               g_embedding_model s2 = Some m' \<and> g_embedding_model_name s2 = Some Y \<and>
               load_calls s2 = load_calls s1 @ [Y]"
    if "Y \<noteq> X" "SentenceTransformer env Y = Inr f" for Y f
    using that hit fresh
    by (simp add: get_embedding_model_def load_embedding_model_def Let_def)
  from same other show ?thesis by blast
qed

lemma first_a:
  "get_embedding_model demo_loaders (ascii ''a'') initial_cache =
     (Inr \<lparr>e_id = 0, encode = demo_encode\<rparr>, cache_a)"
  by (simp add: get_embedding_model_def load_embedding_model_def initial_cache_def
        demo_loaders_def ascii_def Let_def cache_a_def demo_encode_def)

theorem get_embedding_model_twice_witness:
  "cache_ok initial_cache \<and>
   get_embedding_model demo_loaders (ascii ''a'') initial_cache =
     (Inr \<lparr>e_id = 0, encode = demo_encode\<rparr>, cache_a) \<and>
   ascii ''b'' \<noteq> ascii ''a'' \<and>
   SentenceTransformer demo_loaders (ascii ''b'') = Inr demo_encode \<and>
   get_embedding_model demo_loaders (ascii ''a'') cache_a =
     (Inr \<lparr>e_id = 0, encode = demo_encode\<rparr>, cache_a) \<and>
   (\<exists>m' s2. get_embedding_model demo_loaders (ascii ''b'') cache_a = (Inr m', s2) \<and>
      e_id m' \<noteq> 0 \<and> g_embedding_model s2 = Some m' \<and>
      g_embedding_model_name s2 = Some (ascii ''b'') \<and>
      load_calls s2 = load_calls cache_a @ [ascii ''b''])"
proof -
  have ne: "ascii ''b'' \<noteq> ascii ''a''" by (simp add: ascii_def)
  have ld: "SentenceTransformer demo_loaders (ascii ''b'') = Inr demo_encode"
    by (simp add: demo_loaders_def ascii_def demo_encode_def)
  note t = get_embedding_model_twice [OF cache_ok_initial first_a]
  from t have same: "get_embedding_model demo_loaders (ascii ''a'') cache_a =
     (Inr \<lparr>e_id = 0, encode = demo_encode\<rparr>, cache_a)"
    by blast
  from t ne ld
  have "\<exists>m' s2. get_embedding_model demo_loaders (ascii ''b'') cache_a = (Inr m', s2) \<and>
      e_id m' \<noteq> e_id \<lparr>e_id = 0, encode = demo_encode\<rparr> \<and> encode m' = demo_encode \<and>
      g_embedding_model s2 = Some m' \<and>
      g_embedding_model_name s2 = Some (ascii ''b'') \<and>
      load_calls s2 = load_calls cache_a @ [ascii ''b'']"
    by blast
  then have other: "\<exists>m' s2. get_embedding_model demo_loaders (ascii ''b'') cache_a = (Inr m', s2) \<and>
      e_id m' \<noteq> 0 \<and> g_embedding_model s2 = Some m' \<and>
      g_embedding_model_name s2 = Some (ascii ''b'') \<and>
      load_calls s2 = load_calls cache_a @ [ascii ''b'']"
    by simp blast
  from cache_ok_initial first_a ne ld same other show ?thesis by blast
qed

lemma resolve_alias:
  assumes "(a, t) \<in> set RERANK_MODEL_ALIASES"
  shows "dict_get RERANK_MODEL_ALIASES a a = t \<and> dict_get RERANK_MODEL_ALIASES t t = t"
proof -
  from assms consider
    "a = ascii ''fast''" "t = ascii ''cross-encoder/ms-marco-MiniLM-L-6-v2''" |
    "a = ascii ''balanced''" "t = ascii ''BAAI/bge-reranker-base''" |
    "a = ascii ''best''" "t = ascii ''BAAI/bge-reranker-large''" |
    "a = ascii ''latest''" "t = ascii ''mixedbread-ai/mxbai-rerank-large-v1''"
    by (auto simp: RERANK_MODEL_ALIASES_def)
  then show ?thesis
  proof cases
    case 1
    then show ?thesis
      by (simp add: RERANK_MODEL_ALIASES_def dict_get_def ascii_def)
  next
    case 2
    then show ?thesis
      by (simp add: RERANK_MODEL_ALIASES_def dict_get_def ascii_def)
  next
    case 3
    then show ?thesis
      by (simp add: RERANK_MODEL_ALIASES_def dict_get_def ascii_def)
  next
    case 4
    then show ?thesis
      by (simp add: RERANK_MODEL_ALIASES_def dict_get_def ascii_def)
  qed
qed

lemma get_rerank_model_hit:
  assumes "get_rerank_model env n s = (Inr m, s1)"
  shows "g_rerank_model s1 = Some m \<and>
         g_rerank_model_name s1 = Some (dict_get RERANK_MODEL_ALIASES n n)"
  using assms
  by (auto simp: get_rerank_model_def load_rerank_model_def Let_def
           split: option.splits if_splits sum.splits)

text \<open>
  C6. For every entry \<open>(a, t)\<close> of the alias table: \<open>a\<close> resolves to \<open>t\<close>; calling
  \<open>get_rerank_model\<close> with \<open>a\<close> does exactly what calling it with \<open>t\<close> does; and once a
  call with \<open>a\<close> has returned a handle, a further call with \<open>a\<close> or with \<open>t\<close> returns
  that handle and leaves the whole cache state, the record of constructor calls
  included, as it was.
\<close>

theorem get_rerank_model_alias:
  "\<forall>(a, t) \<in> set RERANK_MODEL_ALIASES.
     dict_get RERANK_MODEL_ALIASES a a = t \<and>
     get_rerank_model env a s = get_rerank_model env t s \<and>
     (\<forall>m s1. get_rerank_model env a s = (Inr m, s1) \<longrightarrow>
        get_rerank_model env a s1 = (Inr m, s1) \<and>
        get_rerank_model env t s1 = (Inr m, s1))"
proof (clarify, intro conjI allI impI)
  fix a t assume at: "(a, t) \<in> set RERANK_MODEL_ALIASES"
  then show r: "dict_get RERANK_MODEL_ALIASES a a = t"
    using resolve_alias by blast
  from at have rt: "dict_get RERANK_MODEL_ALIASES t t = t"
    using resolve_alias by blast
  show "get_rerank_model env a s = get_rerank_model env t s"
    by (simp add: get_rerank_model_def r rt)
  fix m s1 assume "get_rerank_model env a s = (Inr m, s1)"
  then have hit: "g_rerank_model s1 = Some m" "g_rerank_model_name s1 = Some t"
    using get_rerank_model_hit r by fastforce+
  show "get_rerank_model env a s1 = (Inr m, s1)"
    using hit by (simp add: get_rerank_model_def r)
  show "get_rerank_model env t s1 = (Inr m, s1)"
    using hit by (simp add: get_rerank_model_def rt)
qed

lemma first_fast:
  "get_rerank_model demo_loaders (ascii ''fast'') initial_cache =
     (Inr \<lparr>ce_id = 0, predict = demo_predict\<rparr>, cache_fast)"
  by (simp add: get_rerank_model_def load_rerank_model_def initial_cache_def
        demo_loaders_def ascii_def Let_def cache_fast_def demo_predict_def
        RERANK_MODEL_ALIASES_def dict_get_def)

theorem get_rerank_model_alias_witness:
  "(ascii ''fast'', ascii ''cross-encoder/ms-marco-MiniLM-L-6-v2'') \<in> set RERANK_MODEL_ALIASES \<and>
   get_rerank_model demo_loaders (ascii ''fast'') initial_cache =
     (Inr \<lparr>ce_id = 0, predict = demo_predict\<rparr>, cache_fast) \<and>
   get_rerank_model demo_loaders (ascii ''cross-encoder/ms-marco-MiniLM-L-6-v2'') initial_cache =
     (Inr \<lparr>ce_id = 0, predict = demo_predict\<rparr>, cache_fast) \<and>
   get_rerank_model demo_loaders (ascii ''fast'') cache_fast =
     (Inr \<lparr>ce_id = 0, predict = demo_predict\<rparr>, cache_fast) \<and>
   get_rerank_model demo_loaders (ascii ''cross-encoder/ms-marco-MiniLM-L-6-v2'') cache_fast =
     (Inr \<lparr>ce_id = 0, predict = demo_predict\<rparr>, cache_fast)"
proof -
  have mem: "(ascii ''fast'', ascii ''cross-encoder/ms-marco-MiniLM-L-6-v2'')
               \<in> set RERANK_MODEL_ALIASES"
    by (simp add: RERANK_MODEL_ALIASES_def)
  from get_rerank_model_alias [of demo_loaders initial_cache] mem
  have "get_rerank_model demo_loaders (ascii ''fast'') initial_cache =
          get_rerank_model demo_loaders (ascii ''cross-encoder/ms-marco-MiniLM-L-6-v2'')
            initial_cache \<and>
     (\<forall>m s1. get_rerank_model demo_loaders (ascii ''fast'') initial_cache = (Inr m, s1) \<longrightarrow>
        get_rerank_model demo_loaders (ascii ''fast'') s1 = (Inr m, s1) \<and>
        get_rerank_model demo_loaders (ascii ''cross-encoder/ms-marco-MiniLM-L-6-v2'') s1 =
          (Inr m, s1))"
    by fast
  with mem first_fast show ?thesis by metis
qed

lemma load_embedding_model_fail:
  assumes "SentenceTransformer env n = Inl e"
  shows "load_embedding_model env n s = (Inl e, s\<lparr>load_calls := load_calls s @ [n]\<rparr>)"
  using assms by (simp add: load_embedding_model_def)

lemma load_rerank_model_fail:
  assumes "CrossEncoder env n = Inl e"
  shows "load_rerank_model env n s = (Inl e, s\<lparr>load_calls := load_calls s @ [n]\<rparr>)"
  using assms by (simp add: load_rerank_model_def)

lemma get_embedding_model_fail:
  assumes "SentenceTransformer env n = Inl e"
    and "g_embedding_model s = None \<or> g_embedding_model_name s \<noteq> Some n"
  shows "get_embedding_model env n s = (Inl e, s\<lparr>load_calls := load_calls s @ [n]\<rparr>)"
proof (cases "g_embedding_model s")
  case None
  then show ?thesis
    by (simp add: get_embedding_model_def load_embedding_model_fail[OF assms(1)])
next
  case (Some m)
  with assms(2) have "g_embedding_model_name s \<noteq> Some n" by simp
  with Some show ?thesis
    by (simp add: get_embedding_model_def load_embedding_model_fail[OF assms(1)])
qed

lemma get_rerank_model_fail:
  assumes "CrossEncoder env (dict_get RERANK_MODEL_ALIASES n n) = Inl e"
    and "g_rerank_model s = None \<or>
         g_rerank_model_name s \<noteq> Some (dict_get RERANK_MODEL_ALIASES n n)"
  shows "get_rerank_model env n s =
         (Inl e, s\<lparr>load_calls := load_calls s @ [dict_get RERANK_MODEL_ALIASES n n]\<rparr>)"
proof (cases "g_rerank_model s")
  case None
  then show ?thesis
    by (simp add: get_rerank_model_def Let_def load_rerank_model_fail[OF assms(1)])
next
  case (Some m)
  with assms(2) have "g_rerank_model_name s \<noteq> Some (dict_get RERANK_MODEL_ALIASES n n)"
    by simp
  with Some show ?thesis
    by (simp add: get_rerank_model_def Let_def load_rerank_model_fail[OF assms(1)])
qed

text \<open>
  C7. When the constructor raises for the name to be loaded (the slot is empty or holds
  another name, so a load is attempted), \<open>get_embedding_model\<close> and \<open>get_rerank_model\<close>
  return that error, and all four globals (both handles, both names) are what they were
  before the call.
\<close>

theorem load_failure_keeps_cache:
  "(SentenceTransformer env n = Inl e \<and>
      (g_embedding_model s = None \<or> g_embedding_model_name s \<noteq> Some n) \<longrightarrow>
      (\<exists>s'. get_embedding_model env n s = (Inl e, s') \<and>
         g_embedding_model s' = g_embedding_model s \<and>
         g_embedding_model_name s' = g_embedding_model_name s \<and>
         g_rerank_model s' = g_rerank_model s \<and>
         g_rerank_model_name s' = g_rerank_model_name s)) \<and>
   (CrossEncoder env (dict_get RERANK_MODEL_ALIASES n n) = Inl e \<and>
      (g_rerank_model s = None \<or>
       g_rerank_model_name s \<noteq> Some (dict_get RERANK_MODEL_ALIASES n n)) \<longrightarrow>
      (\<exists>s'. get_rerank_model env n s = (Inl e, s') \<and>
         g_embedding_model s' = g_embedding_model s \<and>
         g_embedding_model_name s' = g_embedding_model_name s \<and>
         g_rerank_model s' = g_rerank_model s \<and>
         g_rerank_model_name s' = g_rerank_model_name s))"
proof (intro conjI impI)
  assume "SentenceTransformer env n = Inl e \<and>
      (g_embedding_model s = None \<or> g_embedding_model_name s \<noteq> Some n)"
  then have "get_embedding_model env n s = (Inl e, s\<lparr>load_calls := load_calls s @ [n]\<rparr>)"
    using get_embedding_model_fail by blast
  then show "\<exists>s'. get_embedding_model env n s = (Inl e, s') \<and>
         g_embedding_model s' = g_embedding_model s \<and>
         g_embedding_model_name s' = g_embedding_model_name s \<and>
         g_rerank_model s' = g_rerank_model s \<and>
         g_rerank_model_name s' = g_rerank_model_name s"
    by simp
next
  assume "CrossEncoder env (dict_get RERANK_MODEL_ALIASES n n) = Inl e \<and>
      (g_rerank_model s = None \<or>
       g_rerank_model_name s \<noteq> Some (dict_get RERANK_MODEL_ALIASES n n))"
  then have "get_rerank_model env n s =
      (Inl e, s\<lparr>load_calls := load_calls s @ [dict_get RERANK_MODEL_ALIASES n n]\<rparr>)"
    using get_rerank_model_fail by blast
  then show "\<exists>s'. get_rerank_model env n s = (Inl e, s') \<and>
         g_embedding_model s' = g_embedding_model s \<and>
         g_embedding_model_name s' = g_embedding_model_name s \<and>
         g_rerank_model s' = g_rerank_model s \<and>
         g_rerank_model_name s' = g_rerank_model_name s"
    by simp
qed

theorem load_failure_keeps_cache_witness:
  "SentenceTransformer demo_loaders (ascii ''bad'') = Inl (ModelLoadError (ascii ''bad'')) \<and>
   g_embedding_model_name warm_cache \<noteq> Some (ascii ''bad'') \<and>
   CrossEncoder demo_loaders (dict_get RERANK_MODEL_ALIASES (ascii ''bad'') (ascii ''bad'')) =
     Inl (ModelLoadError (ascii ''bad'')) \<and>
   g_rerank_model_name warm_cache \<noteq>
     Some (dict_get RERANK_MODEL_ALIASES (ascii ''bad'') (ascii ''bad'')) \<and>
   (\<exists>s'. get_embedding_model demo_loaders (ascii ''bad'') warm_cache =
           (Inl (ModelLoadError (ascii ''bad'')), s') \<and>
         g_embedding_model s' = g_embedding_model warm_cache \<and>
         g_embedding_model_name s' = Some (ascii ''a'')) \<and>
   (\<exists>s'. get_rerank_model demo_loaders (ascii ''bad'') warm_cache =
           (Inl (ModelLoadError (ascii ''bad'')), s') \<and>
         g_rerank_model s' = g_rerank_model warm_cache \<and>
         g_rerank_model_name s' = Some (ascii ''BAAI/bge-reranker-large''))"
proof -
  have r: "dict_get RERANK_MODEL_ALIASES (ascii ''bad'') (ascii ''bad'') = ascii ''bad''"
    by (simp add: RERANK_MODEL_ALIASES_def dict_get_def ascii_def)
  have a: "SentenceTransformer demo_loaders (ascii ''bad'') = Inl (ModelLoadError (ascii ''bad''))"
    by (simp add: demo_loaders_def)
  have b: "g_embedding_model_name warm_cache \<noteq> Some (ascii ''bad'')"
    by (simp add: warm_cache_def ascii_def)
  have c: "CrossEncoder demo_loaders (dict_get RERANK_MODEL_ALIASES (ascii ''bad'') (ascii ''bad'')) =
     Inl (ModelLoadError (ascii ''bad''))"
    by (simp add: r demo_loaders_def)
  have d: "g_rerank_model_name warm_cache \<noteq>
     Some (dict_get RERANK_MODEL_ALIASES (ascii ''bad'') (ascii ''bad''))"
    unfolding r by (simp add: warm_cache_def ascii_def)
  have n1: "g_embedding_model_name warm_cache = Some (ascii ''a'')"
    by (simp add: warm_cache_def)
  have n2: "g_rerank_model_name warm_cache = Some (ascii ''BAAI/bge-reranker-large'')"
    by (simp add: warm_cache_def)
  from load_failure_keeps_cache
         [of demo_loaders "ascii ''bad''" "ModelLoadError (ascii ''bad'')" warm_cache]
       a b c d
  have "(\<exists>s'. get_embedding_model demo_loaders (ascii ''bad'') warm_cache =
           (Inl (ModelLoadError (ascii ''bad'')), s') \<and>
         g_embedding_model s' = g_embedding_model warm_cache \<and>
         g_embedding_model_name s' = g_embedding_model_name warm_cache \<and>
         g_rerank_model s' = g_rerank_model warm_cache \<and>
         g_rerank_model_name s' = g_rerank_model_name warm_cache) \<and>
   (\<exists>s'. get_rerank_model demo_loaders (ascii ''bad'') warm_cache =
           (Inl (ModelLoadError (ascii ''bad'')), s') \<and>
         g_embedding_model s' = g_embedding_model warm_cache \<and>
         g_embedding_model_name s' = g_embedding_model_name warm_cache \<and>
         g_rerank_model s' = g_rerank_model warm_cache \<and>
         g_rerank_model_name s' = g_rerank_model_name warm_cache)"
    by blast
  with a b c d n1 n2 show ?thesis by metis
qed

section \<open>Sorting and the store: auxiliary facts\<close>

lemma keys_of_total:
  assumes "\<forall>x \<in> set xs. key x = Inr (f x)"
  shows "keys_of key xs = Inr (map (\<lambda>x. (f x, x)) xs)"
  using assms by (induction xs) simp_all

lemma keys_of_error:
  assumes "keys_of key xs = Inl e"
  shows "\<exists>x \<in> set xs. key x = Inl e"
  using assms by (induction xs) (auto split: sum.splits)

lemma insort_key_decorated:
  "insort_key fst (f x, x) (map (\<lambda>y. (f y, y)) ys) = map (\<lambda>y. (f y, y)) (insort_key f x ys)"
  by (induction ys) simp_all

lemma sort_key_decorated:
  "sort_key fst (map (\<lambda>y. (f y, y)) xs) = map (\<lambda>y. (f y, y)) (sort_key f xs)"
  by (induction xs) (simp_all add: insort_key_decorated)

lemma py_sorted_reverse:
  assumes "\<forall>x \<in> set xs. key x = Inr (f x)"
  shows "py_sorted key True xs = Inr (rev (sort_key f (rev xs)))"
proof -
  have "rev (map (\<lambda>x. (f x, x)) xs) = map (\<lambda>x. (f x, x)) (rev xs)"
    by (simp add: rev_map)
  then have "sort_key fst (rev (map (\<lambda>x. (f x, x)) xs)) =
             map (\<lambda>x. (f x, x)) (sort_key f (rev xs))"
    by (simp only: sort_key_decorated)
  then have "map snd (rev (sort_key fst (rev (map (\<lambda>x. (f x, x)) xs)))) = rev (sort_key f (rev xs))"
    by (simp add: rev_map comp_def)
  then show ?thesis
    by (simp add: py_sorted_def keys_of_total [OF assms])
qed

lemma desc_sorted:
  "sorted_wrt (\<lambda>x y. f y \<le> f x) (rev (sort_key f ys))"
proof -
  have "sorted (map f (sort_key f ys))" by (rule sorted_sort_key)
  then have "sorted_wrt (\<lambda>x y. f x \<le> f y) (sort_key f ys)"
    by (simp add: sorted_map)
  then show ?thesis by (simp add: sorted_wrt_rev)
qed

lemma desc_stable:
  "filter (\<lambda>x. f x = k) (rev (sort_key f (rev xs))) = filter (\<lambda>x. f x = k) xs"
proof -
  have "filter (\<lambda>x. f x = k) (rev (sort_key f (rev xs))) =
        rev (filter (\<lambda>x. f x = k) (sort_key f (rev xs)))"
    by (simp add: rev_filter)
  also have "\<dots> = rev (filter (\<lambda>x. f x = k) (rev xs))"
    by (simp only: sort_key_stable)
  also have "\<dots> = filter (\<lambda>x. f x = k) xs"
    by (simp add: rev_filter)
  finally show ?thesis .
qed

lemma sorted_wrt_take: "sorted_wrt P xs \<Longrightarrow> sorted_wrt P (take n xs)"
  by (metis append_take_drop_id sorted_wrt_append)

lemma slice_to_pos: "0 \<le> n \<Longrightarrow> slice_to xs n = take (nat n) xs"
  by (simp add: slice_to_def)

lemma ties_keep_order_take:
  assumes "\<And>k. filter (\<lambda>x. sc x = k) full = filter (\<lambda>x. sc x = k) inp"
  shows "ties_keep_order sc (take n full) inp"
  unfolding ties_keep_order_def
proof
  fix k
  have "prefix (filter (\<lambda>x. sc x = k) (take n full)) (filter (\<lambda>x. sc x = k) full)"
    by (rule filter_mono_prefix) (rule take_is_prefix)
  then show "prefix (filter (\<lambda>x. sc x = k) (take n full)) (filter (\<lambda>x. sc x = k) inp)"
    by (simp add: assms)
qed

lemma assign_scores_frame [simp]:
  "lists (assign_scores zs w) = lists w"
  "next_dict (assign_scores zs w) = next_dict w"
  "next_list (assign_scores zs w) = next_list w"
  "calls (assign_scores zs w) = calls w"
  "clock (assign_scores zs w) = clock w"
  "ticks (assign_scores zs w) = ticks w"
  by (induction zs w rule: assign_scores.induct) simp_all

lemma dicts_assign_scores:
  "dicts (assign_scores zs w) a =
     (case map_of (rev zs) a of
        None \<Rightarrow> dicts w a
      | Some s \<Rightarrow> (dicts w a)\<lparr>c_rerank_score := Some s\<rparr>)"
proof (induction zs w rule: assign_scores.induct)
  case (1 w)
  show ?case by simp
next
  case (2 c s rest w)
  show ?case
    by (simp add: 2 map_add_def split: option.splits)
qed

section \<open>Facts about \<open>rerank\<close>\<close>

lemma log_call_frame [simp]:
  "dicts (log_call c w) = dicts w"
  "lists (log_call c w) = lists w"
  "next_dict (log_call c w) = next_dict w"
  "next_list (log_call c w) = next_list w"
  "calls (log_call c w) = calls w @ [c]"
  "clock (log_call c w) = clock w"
  "ticks (log_call c w) = ticks w"
  by (simp_all add: log_call_def)

lemma text_pairs_ok:
  assumes "text_pairs q cs = Inr ps"
  shows "length ps = length cs \<and>
         (\<forall>i < length cs. fst (ps ! i) = q \<and> c_text (cs ! i) = Some (snd (ps ! i)))"
  using assms
proof (induction cs arbitrary: ps)
  case Nil
  then show ?case by simp
next
  case (Cons c cs)
  then obtain t ps' where t: "c_text c = Some t" and ps': "text_pairs q cs = Inr ps'"
    and ps: "ps = (q, t) # ps'"
    by (auto split: option.splits sum.splits)
  from Cons.IH [OF ps'] t ps show ?case
    by (auto simp: nth_Cons split: nat.splits)
qed

lemma text_pairs_error:
  assumes "text_pairs q cs = Inl e"
  shows "e = KeyError (ascii ''text'') \<and> (\<exists>c \<in> set cs. c_text c = None)"
  using assms
  by (induction cs) (auto split: option.splits sum.splits)

lemma text_pairs_total:
  assumes "\<forall>c \<in> set cs. c_text c \<noteq> None"
  shows "\<exists>ps. text_pairs q cs = Inr ps"
  using assms
  by (induction cs) (auto split: option.splits sum.splits)

lemma map_of_rev_zip_Some:
  assumes "a \<in> set cs" "length ss = length cs"
  shows "\<exists>s. map_of (rev (zip cs ss)) a = Some s"
proof -
  from assms have "a \<in> fst ` set (rev (zip cs ss))"
    by (simp add: map_fst_zip [symmetric] del: map_fst_zip) (metis map_fst_zip set_map)
  then show ?thesis
    by (metis map_of_eq_None_iff not_Some_eq)
qed

lemma scored_after_assign:
  assumes "a \<in> set cs" "length ss = length cs"
  shows "\<exists>s. c_rerank_score (dicts (assign_scores (zip cs ss) w) a) = Some s"
proof -
  from map_of_rev_zip_Some [OF assms] obtain s where "map_of (rev (zip cs ss)) a = Some s" ..
  then show ?thesis by (simp add: dicts_assign_scores)
qed

lemma text_after_assign [simp]:
  "c_text (dicts (assign_scores zs w) a) = c_text (dicts w a)"
  "c_id (dicts (assign_scores zs w) a) = c_id (dicts w a)"
  by (simp_all add: dicts_assign_scores split: option.splits)

text \<open>What \<open>rerank\<close> returns on a non-empty list whose dicts all have a text.\<close>

lemma rerank_result:
  assumes ne: "lists w l \<noteq> []"
    and pairs: "text_pairs q (map (dicts w) (lists w l)) = Inr ps"
    and len: "length (predict (rerank_model self) ps) = length ps"
    and w2: "w2 = assign_scores (zip (lists w l) (predict (rerank_model self) ps))
                    (log_call (Call_predict ps) (log_call (Call_rerank q l) w))"
  shows "\<exists>f. (\<forall>a \<in> set (lists w l). c_rerank_score (dicts w2 a) = Some (f a)) \<and>
           rerank self q l w =
             (Inr (next_list w),
              w2\<lparr>lists := (lists w)(next_list w :=
                     slice_to (rev (sort_key f (rev (lists w l)))) (top_n_rerank self)),
                 next_list := Suc (next_list w)\<rparr>)"
proof -
  let ?cs = "lists w l"
  let ?ss = "predict (rerank_model self) ps"
  from text_pairs_ok [OF pairs] have lps: "length ps = length ?cs" by simp
  with len have lss: "length ?ss = length ?cs" by simp
  define f where "f a = the (c_rerank_score (dicts w2 a))" for a
  have sc: "\<forall>a \<in> set ?cs. c_rerank_score (dicts w2 a) = Some (f a)"
  proof
    fix a assume "a \<in> set ?cs"
    from scored_after_assign [OF this lss] show "c_rerank_score (dicts w2 a) = Some (f a)"
      unfolding w2 f_def by (metis option.sel w2)
  qed
  then have key: "\<forall>a \<in> set ?cs. rerank_score_key w2 a = Inr (f a)"
    by (simp add: rerank_score_key_def)
  have sorted: "py_sorted (rerank_score_key w2) True ?cs = Inr (rev (sort_key f (rev ?cs)))"
    by (rule py_sorted_reverse [OF key])
  have l2: "lists w2 = lists w" "next_list w2 = next_list w"
    by (simp_all add: w2)
  have "rerank self q l w =
             (Inr (next_list w),
              w2\<lparr>lists := (lists w)(next_list w :=
                     slice_to (rev (sort_key f (rev (lists w l)))) (top_n_rerank self)),
                 next_list := Suc (next_list w)\<rparr>)"
    using ne pairs sorted l2
    by (simp add: rerank_def Let_def new_list_def w2 [symmetric])
  with sc show ?thesis by blast
qed

lemma ranked_take:
  assumes "\<forall>x \<in> set inp. sc x = Some (f x)"
  shows "sorted_desc_by sc (take n (rev (sort_key f (rev inp)))) \<and>
         ties_keep_order sc (take n (rev (sort_key f (rev inp)))) inp"
proof
  let ?full = "rev (sort_key f (rev inp))"
  have setfull: "set ?full = set inp" by simp
  have sub: "set (take n ?full) \<subseteq> set inp"
    using set_take_subset [of n ?full] by simp
  have "sorted_wrt (\<lambda>x y. f y \<le> f x) (take n ?full)"
    by (rule sorted_wrt_take) (rule desc_sorted)
  then have "sorted_wrt (\<lambda>x y. case (sc x, sc y) of (Some a, Some b) \<Rightarrow> b \<le> a | _ \<Rightarrow> False)
               (take n ?full)"
  proof (rule sorted_wrt_mono_rel [rotated])
    fix x y
    assume "x \<in> set (take n ?full)" "y \<in> set (take n ?full)" "f y \<le> f x"
    moreover from this sub assms have "sc x = Some (f x)" "sc y = Some (f y)" by blast+
    ultimately show "case (sc x, sc y) of (Some a, Some b) \<Rightarrow> b \<le> a | _ \<Rightarrow> False"
      by simp
  qed
  moreover have "\<forall>x \<in> set (take n ?full). sc x \<noteq> None"
    using sub assms by auto
  ultimately show "sorted_desc_by sc (take n ?full)"
    by (simp add: sorted_desc_by_def)
  have "filter (\<lambda>x. sc x = k) ?full = filter (\<lambda>x. sc x = k) inp" for k
  proof (cases k)
    case None
    have "filter (\<lambda>x. sc x = None) ?full = []" "filter (\<lambda>x. sc x = None) inp = []"
      using assms by (auto simp: filter_empty_conv)
    with None show ?thesis by simp
  next
    case (Some v)
    have "filter (\<lambda>x. sc x = Some v) ?full = filter (\<lambda>x. f x = v) ?full"
      by (rule filter_cong) (use assms in auto)
    also have "\<dots> = filter (\<lambda>x. f x = v) inp" by (rule desc_stable)
    also have "\<dots> = filter (\<lambda>x. sc x = Some v) inp"
      by (rule filter_cong) (use assms in auto)
    finally show ?thesis using Some by simp
  qed
  then show "ties_keep_order sc (take n ?full) inp"
    by (rule ties_keep_order_take)
qed

lemma scored_copies_props:
  assumes "length scores = length chunks"
  shows "length (scored_copies chunks scores) = length chunks"
    and "\<forall>c \<in> set (scored_copies chunks scores). c_rerank_score c \<noteq> None"
    and "\<forall>c \<in> set (scored_copies chunks scores). \<exists>b \<in> set chunks. c_text c = c_text b"
  using assms
  by (auto simp: scored_copies_def dest: set_zip_leftD)

lemma rerank_chunks_result:
  assumes ne: "chunks \<noteq> []"
    and model: "get_rerank_model env (resolve_model_name model_name) s = (Inr m, s1)"
    and len: "length (predict m (get_text_pairs q chunks)) = length chunks"
  shows "\<exists>f. (\<forall>c \<in> set (scored_copies chunks (predict m (get_text_pairs q chunks))).
                 c_rerank_score c = Some (f c)) \<and>
           rerank_chunks env q chunks top_n model_name s =
             (Inr (slice_to (rev (sort_key f
                     (rev (scored_copies chunks (predict m (get_text_pairs q chunks)))))) top_n),
              s1)"
proof -
  let ?scored = "scored_copies chunks (predict m (get_text_pairs q chunks))"
  define f where "f c = the (c_rerank_score c)" for c :: chunk
  have sc: "\<forall>c \<in> set ?scored. c_rerank_score c = Some (f c)"
    using scored_copies_props(2) [OF len] by (auto simp: f_def)
  then have "\<forall>c \<in> set ?scored. chunk_score_key c = Inr (f c)"
    by (simp add: chunk_score_key_def)
  then have "py_sorted chunk_score_key True ?scored = Inr (rev (sort_key f (rev ?scored)))"
    by (rule py_sorted_reverse)
  then have "rerank_chunks env q chunks top_n model_name s =
             (Inr (slice_to (rev (sort_key f (rev ?scored))) top_n), s1)"
    using ne model by (simp add: rerank_chunks_def Let_def)
  with sc show ?thesis by blast
qed

text \<open>
  C1. \<open>RagQueryEngine.rerank\<close>, on a non-empty list whose dicts all have a text (the
  pairing succeeds), with a positive \<open>top_n_rerank\<close> and a cross-encoder that returns one
  score per pair, returns a list of length \<open>min(top_n, len(candidates))\<close> whose elements
  have scores that do not increase, in which elements of equal score keep the order of
  the input, and every element is a dict of the input with its text unchanged.
  \<open>rerank_chunks\<close>, on a non-empty list with a positive \<open>top_n\<close>, when the model is
  obtained and returns one score per pair, returns a list with the same properties
  (ties in the order of the input chunks with their scores attached, every text the text
  of an input chunk).
\<close>

theorem rerank_returns_top_n:
  "(lists w l \<noteq> [] \<and> 0 < top_n_rerank self \<and>
    text_pairs q (map (dicts w) (lists w l)) = Inr ps \<and>
    length (predict (rerank_model self) ps) = length ps \<longrightarrow>
      (\<exists>r w'. rerank self q l w = (Inr r, w') \<and>
         length (lists w' r) = min (nat (top_n_rerank self)) (length (lists w l)) \<and>
         sorted_desc_by (\<lambda>a. c_rerank_score (dicts w' a)) (lists w' r) \<and>
         ties_keep_order (\<lambda>a. c_rerank_score (dicts w' a)) (lists w' r) (lists w l) \<and>
         (\<forall>a \<in> set (lists w' r).
            a \<in> set (lists w l) \<and> c_text (dicts w' a) = c_text (dicts w a)))) \<and>
   (chunks \<noteq> [] \<and> 0 < top_n \<and>
    get_rerank_model env (resolve_model_name model_name) s = (Inr m, s1) \<and>
    length (predict m (get_text_pairs q chunks)) = length chunks \<longrightarrow>
      (\<exists>out scores. rerank_chunks env q chunks top_n model_name s = (Inr out, s1) \<and>
         length out = min (nat top_n) (length chunks) \<and>
         sorted_desc_by c_rerank_score out \<and>
         length scores = length chunks \<and>
         ties_keep_order c_rerank_score out (scored_copies chunks scores) \<and>
         (\<forall>c \<in> set out. \<exists>b \<in> set chunks. c_text c = c_text b)))"
proof (intro conjI impI)
  assume a: "lists w l \<noteq> [] \<and> 0 < top_n_rerank self \<and>
    text_pairs q (map (dicts w) (lists w l)) = Inr ps \<and>
    length (predict (rerank_model self) ps) = length ps"
  let ?cs = "lists w l"
  let ?n = "nat (top_n_rerank self)"
  define w2 where "w2 = assign_scores (zip ?cs (predict (rerank_model self) ps))
                    (log_call (Call_predict ps) (log_call (Call_rerank q l) w))"
  from a rerank_result [of w l q ps self w2] w2_def
  obtain f where sc: "\<forall>a \<in> set ?cs. c_rerank_score (dicts w2 a) = Some (f a)"
    and res: "rerank self q l w =
             (Inr (next_list w),
              w2\<lparr>lists := (lists w)(next_list w :=
                     slice_to (rev (sort_key f (rev ?cs))) (top_n_rerank self)),
                 next_list := Suc (next_list w)\<rparr>)"
    by blast
  let ?out = "take ?n (rev (sort_key f (rev ?cs)))"
  let ?w' = "w2\<lparr>lists := (lists w)(next_list w := ?out), next_list := Suc (next_list w)\<rparr>"
  from a have sl: "slice_to (rev (sort_key f (rev ?cs))) (top_n_rerank self) = ?out"
    by (simp add: slice_to_pos)
  have r1: "rerank self q l w = (Inr (next_list w), ?w')"
    using res sl by simp
  have o: "lists ?w' (next_list w) = ?out" by simp
  have d: "dicts ?w' = dicts w2" by simp
  have r2: "length ?out = min ?n (length ?cs)" by simp
  from ranked_take [OF sc, of ?n]
  have r3: "sorted_desc_by (\<lambda>a. c_rerank_score (dicts w2 a)) ?out"
    and r4: "ties_keep_order (\<lambda>a. c_rerank_score (dicts w2 a)) ?out ?cs"
    by blast+
  have r5: "\<forall>a \<in> set ?out. a \<in> set ?cs \<and> c_text (dicts w2 a) = c_text (dicts w a)"
  proof
    fix a assume "a \<in> set ?out"
    then have "a \<in> set (rev (sort_key f (rev ?cs)))" by (rule in_set_takeD)
    then show "a \<in> set ?cs \<and> c_text (dicts w2 a) = c_text (dicts w a)"
      by (simp add: w2_def)
  qed
  show "\<exists>r w'. rerank self q l w = (Inr r, w') \<and>
         length (lists w' r) = min (nat (top_n_rerank self)) (length (lists w l)) \<and>
         sorted_desc_by (\<lambda>a. c_rerank_score (dicts w' a)) (lists w' r) \<and>
         ties_keep_order (\<lambda>a. c_rerank_score (dicts w' a)) (lists w' r) (lists w l) \<and>
         (\<forall>a \<in> set (lists w' r).
            a \<in> set (lists w l) \<and> c_text (dicts w' a) = c_text (dicts w a))"
    apply (rule exI [of _ "next_list w"])
    apply (rule exI [of _ ?w'])
    apply (simp only: o d)
    using r1 r2 r3 r4 r5 by blast
next
  assume a: "chunks \<noteq> [] \<and> 0 < top_n \<and>
    get_rerank_model env (resolve_model_name model_name) s = (Inr m, s1) \<and>
    length (predict m (get_text_pairs q chunks)) = length chunks"
  let ?scores = "predict m (get_text_pairs q chunks)"
  let ?scored = "scored_copies chunks ?scores"
  from a rerank_chunks_result [of chunks env model_name s m s1 q top_n]
  obtain f where sc: "\<forall>c \<in> set ?scored. c_rerank_score c = Some (f c)"
    and res: "rerank_chunks env q chunks top_n model_name s =
               (Inr (slice_to (rev (sort_key f (rev ?scored))) top_n), s1)"
    by blast
  let ?out = "take (nat top_n) (rev (sort_key f (rev ?scored)))"
  from a have r1: "rerank_chunks env q chunks top_n model_name s = (Inr ?out, s1)"
    using res by (simp add: slice_to_pos)
  from a have len: "length ?scores = length chunks" by simp
  have r2: "length ?out = min (nat top_n) (length chunks)"
    by (simp add: scored_copies_props(1) [OF len])
  from ranked_take [OF sc, of "nat top_n"]
  have r3: "sorted_desc_by c_rerank_score ?out"
    and r4: "ties_keep_order c_rerank_score ?out ?scored"
    by blast+
  have r5: "\<forall>c \<in> set ?out. \<exists>b \<in> set chunks. c_text c = c_text b"
  proof
    fix c assume "c \<in> set ?out"
    then have "c \<in> set (rev (sort_key f (rev ?scored)))" by (rule in_set_takeD)
    then have "c \<in> set ?scored" by simp
    with scored_copies_props(3) [OF len] show "\<exists>b \<in> set chunks. c_text c = c_text b"
      by blast
  qed
  from r1 r2 r3 len r4 r5
  show "\<exists>out scores. rerank_chunks env q chunks top_n model_name s = (Inr out, s1) \<and>
         length out = min (nat top_n) (length chunks) \<and>
         sorted_desc_by c_rerank_score out \<and>
         length scores = length chunks \<and>
         ties_keep_order c_rerank_score out (scored_copies chunks scores) \<and>
         (\<forall>c \<in> set out. \<exists>b \<in> set chunks. c_text c = c_text b)"
    by blast
qed

lemma demo_pairs:
  "text_pairs (ascii ''q'') (map (dicts demo_world) (lists demo_world 0)) =
     Inr [(ascii ''q'', ascii ''xx''), (ascii ''q'', ascii ''yyy''), (ascii ''q'', ascii ''zz'')]"
  by (simp add: demo_world_def demo_chunk_def)

lemma demo_model:
  "get_rerank_model demo_loaders (resolve_model_name None) initial_cache =
     (Inr \<lparr>ce_id = 0, predict = demo_predict\<rparr>, cache_fast)"
  by (simp add: resolve_model_name_def DEFAULT_RERANK_MODEL_def RERANK_MODELS_def
        get_rerank_model_def load_rerank_model_def initial_cache_def
        demo_loaders_def ascii_def Let_def cache_fast_def
        RERANK_MODEL_ALIASES_def dict_get_def)

theorem rerank_returns_top_n_witness:
  "lists demo_world 0 \<noteq> [] \<and> 0 < top_n_rerank demo_engine \<and>
   text_pairs (ascii ''q'') (map (dicts demo_world) (lists demo_world 0)) =
     Inr [(ascii ''q'', ascii ''xx''), (ascii ''q'', ascii ''yyy''), (ascii ''q'', ascii ''zz'')] \<and>
   length (predict (rerank_model demo_engine)
     [(ascii ''q'', ascii ''xx''), (ascii ''q'', ascii ''yyy''), (ascii ''q'', ascii ''zz'')]) =
     length [(ascii ''q'', ascii ''xx''), (ascii ''q'', ascii ''yyy''), (ascii ''q'', ascii ''zz'')] \<and>
   (\<exists>r w'. rerank demo_engine (ascii ''q'') 0 demo_world = (Inr r, w') \<and>
      length (lists w' r) = min (nat (top_n_rerank demo_engine)) (length (lists demo_world 0)) \<and>
      sorted_desc_by (\<lambda>a. c_rerank_score (dicts w' a)) (lists w' r) \<and>
      ties_keep_order (\<lambda>a. c_rerank_score (dicts w' a)) (lists w' r) (lists demo_world 0) \<and>
      (\<forall>a \<in> set (lists w' r).
         a \<in> set (lists demo_world 0) \<and> c_text (dicts w' a) = c_text (dicts demo_world a))) \<and>
   [demo_chunk ''a'' ''xx'', demo_chunk ''b'' ''yyy'', textless_chunk] \<noteq> [] \<and> (0::int) < 2 \<and>
   get_rerank_model demo_loaders (resolve_model_name None) initial_cache =
     (Inr \<lparr>ce_id = 0, predict = demo_predict\<rparr>, cache_fast) \<and>
   length (predict \<lparr>ce_id = 0, predict = demo_predict\<rparr>
     (get_text_pairs (ascii ''q'')
        [demo_chunk ''a'' ''xx'', demo_chunk ''b'' ''yyy'', textless_chunk])) =
     length [demo_chunk ''a'' ''xx'', demo_chunk ''b'' ''yyy'', textless_chunk] \<and>
   (\<exists>out scores.
      rerank_chunks demo_loaders (ascii ''q'')
        [demo_chunk ''a'' ''xx'', demo_chunk ''b'' ''yyy'', textless_chunk] 2 None initial_cache =
        (Inr out, cache_fast) \<and>
      length out =
        min (nat 2) (length [demo_chunk ''a'' ''xx'', demo_chunk ''b'' ''yyy'', textless_chunk]) \<and>
      sorted_desc_by c_rerank_score out \<and>
      length scores = length [demo_chunk ''a'' ''xx'', demo_chunk ''b'' ''yyy'', textless_chunk] \<and>
      ties_keep_order c_rerank_score out
        (scored_copies [demo_chunk ''a'' ''xx'', demo_chunk ''b'' ''yyy'', textless_chunk] scores) \<and>
      (\<forall>c \<in> set out.
         \<exists>b \<in> set [demo_chunk ''a'' ''xx'', demo_chunk ''b'' ''yyy'', textless_chunk].
           c_text c = c_text b))"
proof -
  let ?ps = "[(ascii ''q'', ascii ''xx''), (ascii ''q'', ascii ''yyy''), (ascii ''q'', ascii ''zz'')]"
  let ?chunks = "[demo_chunk ''a'' ''xx'', demo_chunk ''b'' ''yyy'', textless_chunk]"
  have h1: "lists demo_world 0 \<noteq> []" by (simp add: demo_world_def)
  have h2: "0 < top_n_rerank demo_engine" by (simp add: demo_engine_def)
  have h4: "length (predict (rerank_model demo_engine) ?ps) = length ?ps"
    by (simp add: demo_engine_def demo_predict_def)
  have g1: "?chunks \<noteq> []" by simp
  have g2: "(0::int) < 2" by simp
  have g4: "length (predict \<lparr>ce_id = 0, predict = demo_predict\<rparr>
              (get_text_pairs (ascii ''q'') ?chunks)) = length ?chunks"
    by (simp add: demo_predict_def get_text_pairs_def)
  note t = rerank_returns_top_n [where w = demo_world and l = 0 and self = demo_engine
      and q = "ascii ''q''" and ps = ?ps and chunks = ?chunks and top_n = 2
      and env = demo_loaders and model_name = None and s = initial_cache
      and m = "\<lparr>ce_id = 0, predict = demo_predict\<rparr>" and ?s1.0 = cache_fast]
  from t h1 h2 demo_pairs h4
  have A: "\<exists>r w'. rerank demo_engine (ascii ''q'') 0 demo_world = (Inr r, w') \<and>
      length (lists w' r) = min (nat (top_n_rerank demo_engine)) (length (lists demo_world 0)) \<and>
      sorted_desc_by (\<lambda>a. c_rerank_score (dicts w' a)) (lists w' r) \<and>
      ties_keep_order (\<lambda>a. c_rerank_score (dicts w' a)) (lists w' r) (lists demo_world 0) \<and>
      (\<forall>a \<in> set (lists w' r).
         a \<in> set (lists demo_world 0) \<and> c_text (dicts w' a) = c_text (dicts demo_world a))"
    by blast
  from t g1 g2 demo_model g4
  have B: "\<exists>out scores.
      rerank_chunks demo_loaders (ascii ''q'') ?chunks 2 None initial_cache =
        (Inr out, cache_fast) \<and>
      length out = min (nat 2) (length ?chunks) \<and> sorted_desc_by c_rerank_score out \<and>
      length scores = length ?chunks \<and>
      ties_keep_order c_rerank_score out (scored_copies ?chunks scores) \<and>
      (\<forall>c \<in> set out. \<exists>b \<in> set ?chunks. c_text c = c_text b)"
    by blast
  from h1 h2 demo_pairs h4 A g1 g2 demo_model g4 B show ?thesis
    by (intro conjI)
qed

text \<open>
  C10. On a non-empty allocated list whose dicts all have a text, with a cross-encoder
  that returns one score per pair, \<open>rerank\<close> writes into the caller's dicts: after the
  call every dict of the input list has a \<open>rerank_score\<close>, whether or not it is among
  the returned ones; the input list holds the same addresses in the same order; and the
  returned list is another object than the input list.
\<close>

theorem rerank_mutates_input:
  assumes "lists w l \<noteq> []" and "l < next_list w"
    and "text_pairs q (map (dicts w) (lists w l)) = Inr ps"
    and "length (predict (rerank_model self) ps) = length ps"
  shows "\<exists>r w'. rerank self q l w = (Inr r, w') \<and>
           (\<forall>a \<in> set (lists w l). c_rerank_score (dicts w' a) \<noteq> None) \<and>
           lists w' l = lists w l \<and> r \<noteq> l"
proof -
  define w2 where "w2 = assign_scores (zip (lists w l) (predict (rerank_model self) ps))
                    (log_call (Call_predict ps) (log_call (Call_rerank q l) w))"
  from rerank_result [OF assms(1,3,4) w2_def]
  obtain f where sc: "\<forall>a \<in> set (lists w l). c_rerank_score (dicts w2 a) = Some (f a)"
    and res: "rerank self q l w =
             (Inr (next_list w),
              w2\<lparr>lists := (lists w)(next_list w :=
                     slice_to (rev (sort_key f (rev (lists w l)))) (top_n_rerank self)),
                 next_list := Suc (next_list w)\<rparr>)"
    by blast
  let ?w' = "w2\<lparr>lists := (lists w)(next_list w :=
                     slice_to (rev (sort_key f (rev (lists w l)))) (top_n_rerank self)),
                 next_list := Suc (next_list w)\<rparr>"
  from sc have "\<forall>a \<in> set (lists w l). c_rerank_score (dicts ?w' a) \<noteq> None" by simp
  moreover from assms(2) have "lists ?w' l = lists w l" by simp
  moreover from assms(2) have "next_list w \<noteq> l" by simp
  ultimately show ?thesis using res by blast
qed

theorem rerank_mutates_input_witness:
  "lists demo_world 0 \<noteq> [] \<and> 0 < next_list demo_world \<and>
   text_pairs (ascii ''q'') (map (dicts demo_world) (lists demo_world 0)) =
     Inr [(ascii ''q'', ascii ''xx''), (ascii ''q'', ascii ''yyy''), (ascii ''q'', ascii ''zz'')] \<and>
   length (predict (rerank_model demo_engine)
     [(ascii ''q'', ascii ''xx''), (ascii ''q'', ascii ''yyy''), (ascii ''q'', ascii ''zz'')]) =
     length [(ascii ''q'', ascii ''xx''), (ascii ''q'', ascii ''yyy''), (ascii ''q'', ascii ''zz'')] \<and>
   (\<exists>r w'. rerank demo_engine (ascii ''q'') 0 demo_world = (Inr r, w') \<and>
      (\<forall>a \<in> set (lists demo_world 0). c_rerank_score (dicts w' a) \<noteq> None) \<and>
      lists w' 0 = lists demo_world 0 \<and> r \<noteq> 0)"
proof -
  let ?ps = "[(ascii ''q'', ascii ''xx''), (ascii ''q'', ascii ''yyy''), (ascii ''q'', ascii ''zz'')]"
  have h1: "lists demo_world 0 \<noteq> []" by (simp add: demo_world_def)
  have h2: "0 < next_list demo_world" by (simp add: demo_world_def)
  have h4: "length (predict (rerank_model demo_engine) ?ps) = length ?ps"
    by (simp add: demo_engine_def demo_predict_def)
  from rerank_mutates_input [OF h1 h2 demo_pairs h4] h1 h2 demo_pairs h4
  show ?thesis by (intro conjI)
qed

text \<open>
  The run behind the witness: with \<open>top_n_rerank = 2\<close> the dict at address 2 is not
  returned, and it has a score all the same.
\<close>

lemma demo_rerank_run:
  "fst (rerank demo_engine (ascii ''q'') 0 demo_world) = Inr 2 \<and>
   lists (snd (rerank demo_engine (ascii ''q'') 0 demo_world)) 2 = [1, 0] \<and>
   lists (snd (rerank demo_engine (ascii ''q'') 0 demo_world)) 0 = [0, 1, 2] \<and>
   c_rerank_score (dicts (snd (rerank demo_engine (ascii ''q'') 0 demo_world)) 2) = Some 2"
  by (simp add: rerank_def Let_def demo_world_def demo_chunk_def demo_engine_def demo_predict_def
      log_call_def py_sorted_def new_list_def slice_to_def rerank_score_key_def ascii_def)

lemma get_text_pairs_nth:
  "length (get_text_pairs q chunks) = length chunks \<and>
   (\<forall>i < length chunks.
      get_text_pairs q chunks ! i =
        (q, case c_text (chunks ! i) of None \<Rightarrow> [] | Some t \<Rightarrow> t))"
  by (simp add: get_text_pairs_def)

lemma map_text_scored_copies:
  assumes "length scores = length chunks"
  shows "map c_text (scored_copies chunks scores) = map c_text chunks"
  using assms
proof (induction chunks arbitrary: scores)
  case Nil
  then show ?case by (simp add: scored_copies_def)
next
  case (Cons c cs)
  then obtain s ss where "scores = s # ss" "length ss = length cs"
    by (cases scores) auto
  with Cons.IH [of ss] show ?case by (simp add: scored_copies_def)
qed

lemma rerank_calls:
  assumes "lists w l \<noteq> []" and "text_pairs q (map (dicts w) (lists w l)) = Inr ps"
  shows "calls (snd (rerank self q l w)) = calls w @ [Call_rerank q l, Call_predict ps]"
  using assms
  by (simp add: rerank_def Let_def new_list_def split: sum.splits prod.splits)

lemma rerank_key_error:
  assumes "lists w l \<noteq> []" and "text_pairs q (map (dicts w) (lists w l)) = Inl e"
  shows "rerank self q l w = (Inl (KeyError (ascii ''text'')), log_call (Call_rerank q l) w)"
  using assms text_pairs_error [OF assms(2)]
  by (simp add: rerank_def Let_def)

text \<open>
  C2, as the code has it. No candidate is left out before scoring. \<open>rerank\<close> pairs the
  question with the text of every dict of the list, in order, and hands exactly these
  pairs to the cross-encoder, an empty text included; when a dict has no text it raises
  \<open>KeyError\<close> and the cross-encoder is not called. \<open>rerank_chunks\<close> pairs the question with
  the text of every chunk, the empty string standing for a missing text; when \<open>top_n\<close>
  does not cut the result, the texts of the scored result are those of the input, each
  as often as in the input, the missing and the empty ones among them.
\<close>

theorem rerank_scores_every_candidate:
  "(lists w l \<noteq> [] \<and> text_pairs q (map (dicts w) (lists w l)) = Inr ps \<longrightarrow>
      length ps = length (lists w l) \<and>
      (\<forall>i < length (lists w l).
         fst (ps ! i) = q \<and> c_text (dicts w (lists w l ! i)) = Some (snd (ps ! i))) \<and>
      calls (snd (rerank self q l w)) = calls w @ [Call_rerank q l, Call_predict ps]) \<and>
   (lists v k \<noteq> [] \<and> text_pairs q (map (dicts v) (lists v k)) = Inl e \<longrightarrow>
      (\<exists>a \<in> set (lists v k). c_text (dicts v a) = None) \<and>
      rerank self q k v = (Inl (KeyError (ascii ''text'')), log_call (Call_rerank q k) v)) \<and>
   length (get_text_pairs q chunks) = length chunks \<and>
   (\<forall>i < length chunks.
      get_text_pairs q chunks ! i =
        (q, case c_text (chunks ! i) of None \<Rightarrow> [] | Some t \<Rightarrow> t)) \<and>
   (chunks \<noteq> [] \<and> int (length chunks) \<le> top_n \<and>
    get_rerank_model env (resolve_model_name model_name) s = (Inr m, s1) \<and>
    length (predict m (get_text_pairs q chunks)) = length chunks \<longrightarrow>
      (\<exists>out. rerank_chunks env q chunks top_n model_name s = (Inr out, s1) \<and>
         mset (map c_text out) = mset (map c_text chunks) \<and>
         (\<forall>c \<in> set out. c_rerank_score c \<noteq> None)))"
proof (intro conjI impI)
  assume a: "lists w l \<noteq> [] \<and> text_pairs q (map (dicts w) (lists w l)) = Inr ps"
  from a text_pairs_ok [of q "map (dicts w) (lists w l)" ps]
  show "length ps = length (lists w l)" by simp
  from a text_pairs_ok [of q "map (dicts w) (lists w l)" ps]
  show "\<forall>i < length (lists w l).
         fst (ps ! i) = q \<and> c_text (dicts w (lists w l ! i)) = Some (snd (ps ! i))"
    by simp
  from a show "calls (snd (rerank self q l w)) = calls w @ [Call_rerank q l, Call_predict ps]"
    by (simp add: rerank_calls)
next
  assume a: "lists v k \<noteq> [] \<and> text_pairs q (map (dicts v) (lists v k)) = Inl e"
  from a text_pairs_error [of q "map (dicts v) (lists v k)" e]
  show "\<exists>a \<in> set (lists v k). c_text (dicts v a) = None" by auto
  from a show "rerank self q k v =
      (Inl (KeyError (ascii ''text'')), log_call (Call_rerank q k) v)"
    by (simp add: rerank_key_error)
next
  show "length (get_text_pairs q chunks) = length chunks"
    by (simp add: get_text_pairs_def)
  show "\<forall>i < length chunks.
      get_text_pairs q chunks ! i =
        (q, case c_text (chunks ! i) of None \<Rightarrow> [] | Some t \<Rightarrow> t)"
    by (simp add: get_text_pairs_def)
next
  assume a: "chunks \<noteq> [] \<and> int (length chunks) \<le> top_n \<and>
    get_rerank_model env (resolve_model_name model_name) s = (Inr m, s1) \<and>
    length (predict m (get_text_pairs q chunks)) = length chunks"
  let ?scored = "scored_copies chunks (predict m (get_text_pairs q chunks))"
  from a rerank_chunks_result [of chunks env model_name s m s1 q top_n]
  obtain f where sc: "\<forall>c \<in> set ?scored. c_rerank_score c = Some (f c)"
    and res: "rerank_chunks env q chunks top_n model_name s =
               (Inr (slice_to (rev (sort_key f (rev ?scored))) top_n), s1)"
    by blast
  from a have len: "length (predict m (get_text_pairs q chunks)) = length chunks" by simp
  have ls: "length ?scored = length chunks" by (rule scored_copies_props(1) [OF len])
  from a have "length chunks \<le> nat top_n" "0 \<le> top_n" by linarith+
  with ls have "slice_to (rev (sort_key f (rev ?scored))) top_n = rev (sort_key f (rev ?scored))"
    by (simp add: slice_to_def)
  with res have r1: "rerank_chunks env q chunks top_n model_name s =
      (Inr (rev (sort_key f (rev ?scored))), s1)"
    by simp
  have "mset (map c_text (rev (sort_key f (rev ?scored)))) = mset (map c_text ?scored)"
    by simp
  then have r2: "mset (map c_text (rev (sort_key f (rev ?scored)))) = mset (map c_text chunks)"
    by (simp only: map_text_scored_copies [OF len])
  have r3: "\<forall>c \<in> set (rev (sort_key f (rev ?scored))). c_rerank_score c \<noteq> None"
    using sc by simp
  from r1 r2 r3
  show "\<exists>out. rerank_chunks env q chunks top_n model_name s = (Inr out, s1) \<and>
         mset (map c_text out) = mset (map c_text chunks) \<and>
         (\<forall>c \<in> set out. c_rerank_score c \<noteq> None)"
    by blast
qed

theorem rerank_scores_every_candidate_witness:
  "lists empty_text_world 0 \<noteq> [] \<and>
   text_pairs (ascii ''q'') (map (dicts empty_text_world) (lists empty_text_world 0)) =
     Inr [(ascii ''q'', []), (ascii ''q'', ascii ''yyy'')] \<and>
   calls (snd (rerank demo_engine (ascii ''q'') 0 empty_text_world)) =
     calls empty_text_world @
       [Call_rerank (ascii ''q'') 0, Call_predict [(ascii ''q'', []), (ascii ''q'', ascii ''yyy'')]] \<and>
   lists textless_world 0 \<noteq> [] \<and>
   text_pairs (ascii ''q'') (map (dicts textless_world) (lists textless_world 0)) =
     Inl (KeyError (ascii ''text'')) \<and>
   rerank demo_engine (ascii ''q'') 0 textless_world =
     (Inl (KeyError (ascii ''text'')), log_call (Call_rerank (ascii ''q'') 0) textless_world) \<and>
   [textless_chunk, demo_chunk ''a'' []] \<noteq> [] \<and>
   int (length [textless_chunk, demo_chunk ''a'' []]) \<le> 8 \<and>
   get_rerank_model demo_loaders (resolve_model_name None) initial_cache =
     (Inr \<lparr>ce_id = 0, predict = demo_predict\<rparr>, cache_fast) \<and>
   length (predict \<lparr>ce_id = 0, predict = demo_predict\<rparr>
     (get_text_pairs (ascii ''q'') [textless_chunk, demo_chunk ''a'' []])) =
     length [textless_chunk, demo_chunk ''a'' []] \<and>
   (\<exists>out. rerank_chunks demo_loaders (ascii ''q'') [textless_chunk, demo_chunk ''a'' []] 8 None
             initial_cache = (Inr out, cache_fast) \<and>
      mset (map c_text out) = mset (map c_text [textless_chunk, demo_chunk ''a'' []]) \<and>
      (\<forall>c \<in> set out. c_rerank_score c \<noteq> None))"
proof -
  let ?ps = "[(ascii ''q'', []), (ascii ''q'', ascii ''yyy'')]"
  let ?chunks = "[textless_chunk, demo_chunk ''a'' []]"
  have h1: "lists empty_text_world 0 \<noteq> []" by (simp add: empty_text_world_def)
  have h2: "text_pairs (ascii ''q'') (map (dicts empty_text_world) (lists empty_text_world 0)) =
     Inr ?ps"
    by (simp add: empty_text_world_def demo_chunk_def ascii_def)
  have k1: "lists textless_world 0 \<noteq> []" by (simp add: textless_world_def)
  have k2: "text_pairs (ascii ''q'') (map (dicts textless_world) (lists textless_world 0)) =
     Inl (KeyError (ascii ''text''))"
    by (simp add: textless_world_def demo_chunk_def textless_chunk_def)
  have g1: "?chunks \<noteq> []" by simp
  have g2: "int (length ?chunks) \<le> 8" by simp
  have g4: "length (predict \<lparr>ce_id = 0, predict = demo_predict\<rparr>
              (get_text_pairs (ascii ''q'') ?chunks)) = length ?chunks"
    by (simp add: demo_predict_def get_text_pairs_def)
  note t = rerank_scores_every_candidate [where w = empty_text_world and l = 0
      and self = demo_engine and q = "ascii ''q''" and ps = ?ps
      and v = textless_world and k = 0 and e = "KeyError (ascii ''text'')"
      and chunks = ?chunks and top_n = 8
      and env = demo_loaders and model_name = None and s = initial_cache
      and m = "\<lparr>ce_id = 0, predict = demo_predict\<rparr>" and ?s1.0 = cache_fast]
  from t h1 h2
  have A: "calls (snd (rerank demo_engine (ascii ''q'') 0 empty_text_world)) =
     calls empty_text_world @ [Call_rerank (ascii ''q'') 0, Call_predict ?ps]"
    by blast
  from t k1 k2
  have B: "rerank demo_engine (ascii ''q'') 0 textless_world =
     (Inl (KeyError (ascii ''text'')), log_call (Call_rerank (ascii ''q'') 0) textless_world)"
    by blast
  from t g1 g2 demo_model g4
  have C: "\<exists>out. rerank_chunks demo_loaders (ascii ''q'') ?chunks 8 None
             initial_cache = (Inr out, cache_fast) \<and>
      mset (map c_text out) = mset (map c_text ?chunks) \<and>
      (\<forall>c \<in> set out. c_rerank_score c \<noteq> None)"
    by blast
  from h1 h2 A k1 k2 B g1 g2 demo_model g4 C show ?thesis
    by (intro conjI)
qed

text \<open>
  C2 as the specification states it fails: \<open>rerank\<close> hands the pair with the empty text to
  the cross-encoder and gives that dict a score, and \<open>rerank_chunks\<close> returns, scored, a
  chunk without text and a chunk with an empty text.
\<close>

theorem rerank_scores_empty_text:
  "calls (snd (rerank demo_engine (ascii ''q'') 0 empty_text_world)) =
     [Call_rerank (ascii ''q'') 0, Call_predict [(ascii ''q'', []), (ascii ''q'', ascii ''yyy'')]] \<and>
   c_text (dicts (snd (rerank demo_engine (ascii ''q'') 0 empty_text_world)) 0) = Some [] \<and>
   c_rerank_score (dicts (snd (rerank demo_engine (ascii ''q'') 0 empty_text_world)) 0) = Some 0 \<and>
   lists (snd (rerank demo_engine (ascii ''q'') 0 empty_text_world)) 1 = [1, 0] \<and>
   fst (rerank_chunks demo_loaders (ascii ''q'') [textless_chunk, demo_chunk ''a'' []] 8 None
          initial_cache) =
     Inr [textless_chunk\<lparr>c_rerank_score := Some 0\<rparr>,
          (demo_chunk ''a'' [])\<lparr>c_rerank_score := Some 0\<rparr>]"
proof -
  have A: "calls (snd (rerank demo_engine (ascii ''q'') 0 empty_text_world)) =
     [Call_rerank (ascii ''q'') 0, Call_predict [(ascii ''q'', []), (ascii ''q'', ascii ''yyy'')]] \<and>
   c_text (dicts (snd (rerank demo_engine (ascii ''q'') 0 empty_text_world)) 0) = Some [] \<and>
   c_rerank_score (dicts (snd (rerank demo_engine (ascii ''q'') 0 empty_text_world)) 0) = Some 0 \<and>
   lists (snd (rerank demo_engine (ascii ''q'') 0 empty_text_world)) 1 = [1, 0]"
    by (simp add: rerank_def Let_def empty_text_world_def demo_chunk_def demo_engine_def
        demo_predict_def log_call_def py_sorted_def new_list_def slice_to_def
        rerank_score_key_def ascii_def)
  have B: "fst (rerank_chunks demo_loaders (ascii ''q'') [textless_chunk, demo_chunk ''a'' []] 8 None
          initial_cache) =
     Inr [textless_chunk\<lparr>c_rerank_score := Some 0\<rparr>,
          (demo_chunk ''a'' [])\<lparr>c_rerank_score := Some 0\<rparr>]"
    by (simp add: rerank_chunks_def demo_model Let_def get_text_pairs_def textless_chunk_def
        demo_chunk_def demo_predict_def scored_copies_def py_sorted_def chunk_score_key_def
        slice_to_def ascii_def)
  from A B show ?thesis by blast
qed

section \<open>Re-ranking a permuted list\<close>

lemma map_sort_key: "map f (sort_key f xs) = sort (map f xs)"
proof -
  have "sort (map f xs) = map f (sort_key f xs)"
    by (rule properties_for_sort) (simp_all add: sorted_sort_key)
  then show ?thesis by simp
qed

lemma sort_mset_cong:
  fixes xs ys :: "'a::linorder list"
  assumes "mset xs = mset ys"
  shows "sort xs = sort ys"
  by (rule properties_for_sort) (simp_all add: assms)

lemma desc_keys_perm:
  assumes "mset xs' = mset xs"
  shows "map f (rev (sort_key f (rev xs'))) = map f (rev (sort_key f (rev xs)))"
proof -
  have "mset (map f (rev xs')) = mset (map f (rev xs))"
    using assms by (metis mset_map mset_rev)
  then have "sort (map f (rev xs')) = sort (map f (rev xs))"
    by (rule sort_mset_cong)
  then show ?thesis by (simp add: rev_map [symmetric] map_sort_key)
qed

lemma take_perm_no_tie:
  fixes f :: "'a \<Rightarrow> 'b::linorder"
  assumes perm: "mset S' = mset S"
    and keys: "map f S' = map f S"
    and gap: "\<forall>a \<in> set (take n S). \<forall>b \<in> set (drop n S). f b < f a"
  shows "mset (take n S') = mset (take n S)"
proof -
  define P where "P x = (\<exists>a \<in> set (take n S). f a \<le> f x)" for x
  have "filter P (take n S) = take n S"
    by (rule filter_True) (auto simp: P_def)
  moreover have "filter P (drop n S) = []"
    using gap by (fastforce simp: filter_empty_conv P_def)
  moreover have "filter P S = filter P (take n S) @ filter P (drop n S)"
    by (metis append_take_drop_id filter_append)
  ultimately have A: "filter P S = take n S" by simp
  have kt: "map f (take n S') = map f (take n S)" "map f (drop n S') = map f (drop n S)"
    using keys by (simp_all add: take_map [symmetric] drop_map [symmetric])
  have "\<forall>x \<in> set (take n S'). P x"
  proof
    fix x assume "x \<in> set (take n S')"
    then have "f x \<in> set (map f (take n S'))" by simp
    then have "f x \<in> set (map f (take n S))" by (simp only: kt)
    then show "P x" by (auto simp: P_def)
  qed
  then have "filter P (take n S') = take n S'" by (simp add: filter_True)
  moreover have "\<forall>y \<in> set (drop n S'). \<not> P y"
  proof
    fix y assume "y \<in> set (drop n S')"
    then have "f y \<in> set (map f (drop n S'))" by simp
    then have "f y \<in> set (map f (drop n S))" by (simp only: kt)
    then obtain b where "b \<in> set (drop n S)" "f b = f y" by auto
    with gap show "\<not> P y" by (fastforce simp: P_def)
  qed
  then have "filter P (drop n S') = []" by (simp add: filter_empty_conv)
  moreover have "filter P S' = filter P (take n S') @ filter P (drop n S')"
    by (metis append_take_drop_id filter_append)
  ultimately have B: "filter P S' = take n S'" by simp
  have "mset (take n S') = filter_mset P (mset S')" by (simp add: B [symmetric])
  also have "\<dots> = filter_mset P (mset S)" by (simp add: perm)
  also have "\<dots> = mset (take n S)" by (simp add: A [symmetric])
  finally show ?thesis .
qed

lemma desc_take_perm:
  assumes perm: "mset xs' = mset xs"
    and gap: "\<forall>a \<in> set (take n (rev (sort_key f (rev xs)))).
                \<forall>b \<in># mset xs - mset (take n (rev (sort_key f (rev xs)))). f b \<noteq> f a"
  shows "mset (take n (rev (sort_key f (rev xs')))) = mset (take n (rev (sort_key f (rev xs))))"
proof (rule take_perm_no_tie)
  let ?S = "rev (sort_key f (rev xs))"
  show "mset (rev (sort_key f (rev xs'))) = mset ?S" using perm by simp
  show "map f (rev (sort_key f (rev xs'))) = map f ?S" by (rule desc_keys_perm [OF perm])
  have "mset ?S = mset (take n ?S) + mset (drop n ?S)"
    by (metis append_take_drop_id mset_append)
  then have md: "mset (drop n ?S) = mset xs - mset (take n ?S)" by simp
  have "sorted_wrt (\<lambda>x y. f y \<le> f x) (take n ?S @ drop n ?S)"
    using desc_sorted [of f "rev xs"] by (simp only: append_take_drop_id)
  then have le: "\<forall>a \<in> set (take n ?S). \<forall>b \<in> set (drop n ?S). f b \<le> f a"
    by (simp only: sorted_wrt_append) blast
  show "\<forall>a \<in> set (take n ?S). \<forall>b \<in> set (drop n ?S). f b < f a"
  proof (intro ballI)
    fix a b assume a: "a \<in> set (take n ?S)" and b: "b \<in> set (drop n ?S)"
    from b have "b \<in># mset xs - mset (take n ?S)" by (simp add: md [symmetric])
    with gap a have "f b \<noteq> f a" by blast
    moreover from le a b have "f b \<le> f a" by blast
    ultimately show "f b < f a" by simp
  qed
qed

lemma slice_to_take:
  "slice_to xs n = take (if 0 \<le> n then nat n else nat (int (length xs) + n)) xs"
  by (simp add: slice_to_def)

lemma rerank_empty:
  assumes "lists w l = []"
  shows "rerank self q l w =
           (Inr (next_list w),
            (log_call (Call_rerank q l) w)
              \<lparr>lists := (lists w)(next_list w := []), next_list := Suc (next_list w)\<rparr>)"
  using assms by (simp add: rerank_def Let_def new_list_def)

lemma rerank_result_the:
  assumes ne: "lists w l \<noteq> []"
    and pairs: "text_pairs q (map (dicts w) (lists w l)) = Inr ps"
    and len: "length (predict (rerank_model self) ps) = length ps"
    and w2: "w2 = assign_scores (zip (lists w l) (predict (rerank_model self) ps))
                    (log_call (Call_predict ps) (log_call (Call_rerank q l) w))"
  shows "rerank self q l w =
             (Inr (next_list w),
              w2\<lparr>lists := (lists w)(next_list w :=
                     slice_to (rev (sort_key (\<lambda>a. the (c_rerank_score (dicts w2 a)))
                                      (rev (lists w l)))) (top_n_rerank self)),
                 next_list := Suc (next_list w)\<rparr>)"
proof -
  let ?cs = "lists w l"
  let ?ss = "predict (rerank_model self) ps"
  let ?f = "\<lambda>a. the (c_rerank_score (dicts w2 a))"
  from text_pairs_ok [OF pairs] have lps: "length ps = length ?cs" by simp
  with len have lss: "length ?ss = length ?cs" by simp
  have sc: "\<forall>a \<in> set ?cs. c_rerank_score (dicts w2 a) = Some (?f a)"
  proof
    fix a assume "a \<in> set ?cs"
    from scored_after_assign [OF this lss] show "c_rerank_score (dicts w2 a) = Some (?f a)"
      unfolding w2 by (metis option.sel)
  qed
  have key: "\<forall>a \<in> set ?cs. rerank_score_key w2 a = Inr (?f a)"
  proof
    fix a assume "a \<in> set ?cs"
    with sc obtain v where "c_rerank_score (dicts w2 a) = Some v" by blast
    then show "rerank_score_key w2 a = Inr (?f a)" by (simp add: rerank_score_key_def)
  qed
  have sorted: "py_sorted (rerank_score_key w2) True ?cs = Inr (rev (sort_key ?f (rev ?cs)))"
    by (rule py_sorted_reverse [OF key])
  have l2: "lists w2 = lists w" "next_list w2 = next_list w"
    by (simp_all add: w2)
  show ?thesis
    using ne pairs sorted l2
    by (simp add: rerank_def Let_def new_list_def w2 [symmetric])
qed

lemma text_pairs_eq:
  assumes "text_pairs q cs = Inr ps"
  shows "ps = map (\<lambda>c. (q, the (c_text c))) cs"
proof (rule nth_equalityI)
  from text_pairs_ok [OF assms] show "length ps = length (map (\<lambda>c. (q, the (c_text c))) cs)"
    by simp
  fix i assume "i < length ps"
  with text_pairs_ok [OF assms] have "i < length cs" "fst (ps ! i) = q"
    "c_text (cs ! i) = Some (snd (ps ! i))" by simp_all
  then show "ps ! i = map (\<lambda>c. (q, the (c_text c))) cs ! i"
    by (simp add: prod_eq_iff)
qed

lemma map_of_graph:
  "map_of (map (\<lambda>k. (k, g k)) ks) a = (if a \<in> set ks then Some (g a) else None)"
  by (induction ks) auto

lemma dicts_after_scoring:
  assumes "text_pairs q (map (dicts w) cs) = Inr ps"
  shows "dicts (assign_scores (zip cs (map sc ps)) w0) a =
           (if a \<in> set cs
            then (dicts w0 a)\<lparr>c_rerank_score := Some (sc (q, the (c_text (dicts w a))))\<rparr>
            else dicts w0 a)"
proof -
  let ?g = "\<lambda>a. sc (q, the (c_text (dicts w a)))"
  from text_pairs_eq [OF assms] have "map sc ps = map ?g cs"
    by (simp add: comp_def)
  then have "zip cs (map sc ps) = map (\<lambda>k. (k, ?g k)) cs"
    by (simp add: zip_map2 zip_same_conv_map)
  then have "rev (zip cs (map sc ps)) = map (\<lambda>k. (k, ?g k)) (rev cs)"
    by (simp add: rev_map)
  then have "map_of (rev (zip cs (map sc ps))) a = (if a \<in> set cs then Some (?g a) else None)"
    by (simp add: map_of_graph)
  then show ?thesis
    by (simp add: dicts_assign_scores)
qed

text \<open>
  C8, as the code has it. Let the cross-encoder score each pair by a fixed function, and
  let two lists in the same store hold the same dicts in a different order. If, in the
  result of re-ranking the first list, no candidate that was left out has the score of a
  candidate that was returned, then re-ranking the second list returns the same dicts,
  each as often, hence the same set of ids; and both runs leave the same dicts behind.
\<close>

theorem rerank_permuted_input:
  assumes det: "predict (rerank_model self) = map sc"
    and perm: "mset (lists w l') = mset (lists w l)"
    and texts: "text_pairs q (map (dicts w) (lists w l)) = Inr ps"
    and run: "rerank self q l w = (Inr r, w1)"
    and gap: "\<forall>a \<in> set (lists w1 r). \<forall>b \<in># mset (lists w l) - mset (lists w1 r).
                c_rerank_score (dicts w1 b) \<noteq> c_rerank_score (dicts w1 a)"
  shows "\<exists>r' w1'. rerank self q l' w = (Inr r', w1') \<and>
           mset (lists w1' r') = mset (lists w1 r) \<and>
           dicts w1' = dicts w1 \<and>
           set (map (c_id \<circ> dicts w1') (lists w1' r')) =
             set (map (c_id \<circ> dicts w1) (lists w1 r))"
proof (cases "lists w l = []")
  case True
  with perm have e': "lists w l' = []" by simp
  from run rerank_empty [OF True, of self q]
  have "lists w1 r = []" "dicts w1 = dicts w" by auto
  moreover from rerank_empty [OF e', of self q]
  obtain r' w1' where "rerank self q l' w = (Inr r', w1')" "lists w1' r' = []"
    "dicts w1' = dicts w" by simp
  ultimately show ?thesis by simp
next
  case False
  define cs where "cs = lists w l"
  define cs' where "cs' = lists w l'"
  from perm have perm': "mset cs' = mset cs" by (simp add: cs_def cs'_def)
  then have sets: "set cs' = set cs" by (rule mset_eq_setD)
  from perm' False have ne': "lists w l' \<noteq> []" by (auto simp: cs_def cs'_def)
  from perm' have lens: "length cs' = length cs" by (rule mset_eq_length)
  have has_text: "\<forall>c \<in> set (map (dicts w) cs). c_text c \<noteq> None"
  proof
    fix c assume "c \<in> set (map (dicts w) cs)"
    then obtain i where "i < length (map (dicts w) cs)" "c = map (dicts w) cs ! i"
      by (metis in_set_conv_nth)
    with text_pairs_ok [OF texts] show "c_text c \<noteq> None" by (simp add: cs_def)
  qed
  with sets have "\<forall>c \<in> set (map (dicts w) cs'). c_text c \<noteq> None" by simp
  from text_pairs_total [OF this] obtain ps' where
    texts': "text_pairs q (map (dicts w) (lists w l')) = Inr ps'" unfolding cs'_def by blast
  have len: "length (predict (rerank_model self) ps) = length ps"
    and len': "length (predict (rerank_model self) ps') = length ps'"
    by (simp_all add: det)
  define w2 where "w2 = assign_scores (zip (lists w l) (predict (rerank_model self) ps))
                    (log_call (Call_predict ps) (log_call (Call_rerank q l) w))"
  define w2' where "w2' = assign_scores (zip (lists w l') (predict (rerank_model self) ps'))
                    (log_call (Call_predict ps') (log_call (Call_rerank q l') w))"
  define g where "g a = (dicts w a)\<lparr>c_rerank_score := Some (sc (q, the (c_text (dicts w a))))\<rparr>"
    for a
  have d2: "dicts w2 a = (if a \<in> set cs then g a else dicts w a)" for a
    unfolding w2_def det g_def cs_def by (simp add: dicts_after_scoring [OF texts])
  have d2': "dicts w2' a = (if a \<in> set cs then g a else dicts w a)" for a
    unfolding w2'_def det g_def sets [symmetric] unfolding cs'_def
    by (simp add: dicts_after_scoring [OF texts'])
  have deq: "dicts w2' = dicts w2"
    by (rule ext) (simp only: d2 d2')
  define f where "f = (\<lambda>a. the (c_rerank_score (dicts w2 a)))"
  have f': "(\<lambda>a. the (c_rerank_score (dicts w2' a))) = f"
    by (simp only: f_def deq)
  define S where "S = rev (sort_key f (rev cs))"
  define S' where "S' = rev (sort_key f (rev cs'))"
  define m where "m = (if 0 \<le> top_n_rerank self then nat (top_n_rerank self)
            else nat (int (length cs) + top_n_rerank self))"
  have lS: "length (rev (sort_key f (rev cs))) = length cs"
    "length (rev (sort_key f (rev cs'))) = length cs"
    by (simp_all add: lens)
  have sl: "slice_to (rev (sort_key f (rev cs))) (top_n_rerank self) =
            take m (rev (sort_key f (rev cs)))"
    and sl': "slice_to (rev (sort_key f (rev cs'))) (top_n_rerank self) =
            take m (rev (sort_key f (rev cs')))"
    by (simp_all only: slice_to_take lS m_def)
  define W1 where "W1 = w2\<lparr>lists := (lists w)(next_list w := take m S),
                      next_list := Suc (next_list w)\<rparr>"
  define W1' where "W1' = w2'\<lparr>lists := (lists w)(next_list w := take m S'),
                      next_list := Suc (next_list w)\<rparr>"
  have res: "rerank self q l w = (Inr (next_list w), W1)"
    unfolding W1_def S_def unfolding sl [symmetric] unfolding f_def cs_def
    by (rule rerank_result_the [OF False texts len w2_def])
  have res': "rerank self q l' w = (Inr (next_list w), W1')"
    unfolding W1'_def S'_def unfolding sl' [symmetric] unfolding f' [symmetric] cs'_def
    by (rule rerank_result_the [OF ne' texts' len' w2'_def])
  from res run have r: "r = next_list w" and w1: "w1 = W1" by simp_all
  have out: "lists W1 (next_list w) = take m S" and dw1: "dicts W1 = dicts w2"
    by (simp_all add: W1_def)
  have out': "lists W1' (next_list w) = take m S'" and dw1': "dicts W1' = dicts w2"
    by (simp_all add: W1'_def deq)
  have scored: "c_rerank_score (dicts w2 a) = Some (f a)" if "a \<in> set cs" for a
    using that by (simp add: d2 f_def g_def)
  have gap0: "\<forall>a \<in> set (take m S). \<forall>b \<in># mset cs - mset (take m S).
                c_rerank_score (dicts w2 b) \<noteq> c_rerank_score (dicts w2 a)"
    using gap by (simp only: r w1 out dw1 cs_def)
  have gap': "\<forall>a \<in> set (take m (rev (sort_key f (rev cs)))).
                \<forall>b \<in># mset cs - mset (take m (rev (sort_key f (rev cs)))). f b \<noteq> f a"
  proof (intro ballI)
    fix a b assume a: "a \<in> set (take m (rev (sort_key f (rev cs))))"
      and b: "b \<in># mset cs - mset (take m (rev (sort_key f (rev cs))))"
    from a have "a \<in> set (rev (sort_key f (rev cs)))" by (rule in_set_takeD)
    then have ain: "a \<in> set cs" by simp
    from b have bin: "b \<in> set cs" by (metis in_diffD set_mset_mset)
    from gap0 a b have "c_rerank_score (dicts w2 b) \<noteq> c_rerank_score (dicts w2 a)"
      unfolding S_def by blast
    with scored [OF ain] scored [OF bin] show "f b \<noteq> f a" by metis
  qed
  from desc_take_perm [OF perm' gap']
  have mm: "mset (take m S') = mset (take m S)" by (simp only: S_def S'_def)
  then have ids: "set (map (c_id \<circ> dicts w2) (take m S')) =
             set (map (c_id \<circ> dicts w2) (take m S))"
    by (metis mset_eq_setD set_map)
  have "rerank self q l' w = (Inr (next_list w), W1') \<and>
           mset (lists W1' (next_list w)) = mset (lists w1 r) \<and>
           dicts W1' = dicts w1 \<and>
           set (map (c_id \<circ> dicts W1') (lists W1' (next_list w))) =
             set (map (c_id \<circ> dicts w1) (lists w1 r))"
    using res' mm ids by (simp only: out out' dw1 dw1' r w1)
  then show ?thesis by blast
qed

lemma demo_predict_map: "demo_predict = map demo_score"
  by (rule ext) (simp add: demo_predict_def demo_score_def)

lemma top1_run:
  "fst (rerank top1_engine (ascii ''q'') 0 demo_world) = Inr 2 \<and>
   lists (snd (rerank top1_engine (ascii ''q'') 0 demo_world)) 2 = [1] \<and>
   c_rerank_score (dicts (snd (rerank top1_engine (ascii ''q'') 0 demo_world)) 0) = Some 2 \<and>
   c_rerank_score (dicts (snd (rerank top1_engine (ascii ''q'') 0 demo_world)) 1) = Some 3 \<and>
   c_rerank_score (dicts (snd (rerank top1_engine (ascii ''q'') 0 demo_world)) 2) = Some 2"
  by (simp add: rerank_def Let_def demo_world_def demo_chunk_def demo_engine_def top1_engine_def
      demo_predict_def log_call_def py_sorted_def new_list_def slice_to_def
      rerank_score_key_def ascii_def)

theorem rerank_permuted_input_witness:
  "predict (rerank_model top1_engine) = map demo_score \<and>
   mset (lists demo_world 1) = mset (lists demo_world 0) \<and>
   text_pairs (ascii ''q'') (map (dicts demo_world) (lists demo_world 0)) =
     Inr [(ascii ''q'', ascii ''xx''), (ascii ''q'', ascii ''yyy''), (ascii ''q'', ascii ''zz'')] \<and>
   rerank top1_engine (ascii ''q'') 0 demo_world =
     (Inr 2, snd (rerank top1_engine (ascii ''q'') 0 demo_world)) \<and>
   lists (snd (rerank top1_engine (ascii ''q'') 0 demo_world)) 2 = [1] \<and>
   (\<exists>r' w1'. rerank top1_engine (ascii ''q'') 1 demo_world = (Inr r', w1') \<and>
      mset (lists w1' r') = mset [1] \<and>
      dicts w1' = dicts (snd (rerank top1_engine (ascii ''q'') 0 demo_world)))"
proof -
  let ?w1 = "snd (rerank top1_engine (ascii ''q'') 0 demo_world)"
  have det: "predict (rerank_model top1_engine) = map demo_score"
    by (simp add: top1_engine_def demo_engine_def demo_predict_map)
  have perm: "mset (lists demo_world 1) = mset (lists demo_world 0)"
    by (simp add: demo_world_def)
  have run: "rerank top1_engine (ascii ''q'') 0 demo_world = (Inr 2, ?w1)"
    using top1_run by (simp add: prod_eq_iff)
  have out: "lists ?w1 2 = [1]" using top1_run by simp
  have l0: "lists demo_world 0 = [0, 1, 2]" by (simp add: demo_world_def)
  have rest: "mset (lists demo_world 0) - mset (lists ?w1 2) = {#0, 2#}"
    by (simp add: l0 out)
  have gap: "\<forall>a \<in> set (lists ?w1 2). \<forall>b \<in># mset (lists demo_world 0) - mset (lists ?w1 2).
                c_rerank_score (dicts ?w1 b) \<noteq> c_rerank_score (dicts ?w1 a)"
    unfolding rest unfolding out using top1_run by simp
  from rerank_permuted_input [OF det perm demo_pairs run gap]
  have "\<exists>r' w1'. rerank top1_engine (ascii ''q'') 1 demo_world = (Inr r', w1') \<and>
      mset (lists w1' r') = mset [1] \<and> dicts w1' = dicts ?w1"
    unfolding out by blast
  with det perm demo_pairs run out show ?thesis by (intro conjI)
qed

text \<open>
  C8 as the specification states it fails when a tie lies across the cut: the dicts
  \<open>a\<close> and \<open>c\<close> have the same score, \<open>top_n_rerank\<close> is 2, and the list in the order
  \<open>a, b, c\<close> gives the ids \<open>b, a\<close> while the same dicts in the order \<open>c, b, a\<close> give
  \<open>b, c\<close>.
\<close>

theorem rerank_permutation_changes_ids:
  "predict (rerank_model demo_engine) = map demo_score \<and>
   mset (lists demo_world 1) = mset (lists demo_world 0) \<and>
   fst (rerank demo_engine (ascii ''q'') 0 demo_world) = Inr 2 \<and>
   map (c_id \<circ> dicts (snd (rerank demo_engine (ascii ''q'') 0 demo_world)))
     (lists (snd (rerank demo_engine (ascii ''q'') 0 demo_world)) 2) = [ascii ''b'', ascii ''a''] \<and>
   fst (rerank demo_engine (ascii ''q'') 1 demo_world) = Inr 2 \<and>
   map (c_id \<circ> dicts (snd (rerank demo_engine (ascii ''q'') 1 demo_world)))
     (lists (snd (rerank demo_engine (ascii ''q'') 1 demo_world)) 2) = [ascii ''b'', ascii ''c'']"
proof -
  have det: "predict (rerank_model demo_engine) = map demo_score"
    by (simp add: demo_engine_def demo_predict_map)
  have perm: "mset (lists demo_world 1) = mset (lists demo_world 0)"
    by (simp add: demo_world_def)
  have A: "fst (rerank demo_engine (ascii ''q'') 0 demo_world) = Inr 2 \<and>
   map (c_id \<circ> dicts (snd (rerank demo_engine (ascii ''q'') 0 demo_world)))
     (lists (snd (rerank demo_engine (ascii ''q'') 0 demo_world)) 2) = [ascii ''b'', ascii ''a'']"
    by (simp add: rerank_def Let_def demo_world_def demo_chunk_def demo_engine_def
      demo_predict_def log_call_def py_sorted_def new_list_def slice_to_def
      rerank_score_key_def ascii_def)
  have B: "fst (rerank demo_engine (ascii ''q'') 1 demo_world) = Inr 2 \<and>
   map (c_id \<circ> dicts (snd (rerank demo_engine (ascii ''q'') 1 demo_world)))
     (lists (snd (rerank demo_engine (ascii ''q'') 1 demo_world)) 2) = [ascii ''b'', ascii ''c'']"
    by (simp add: rerank_def Let_def demo_world_def demo_chunk_def demo_engine_def
      demo_predict_def log_call_def py_sorted_def new_list_def slice_to_def
      rerank_score_key_def ascii_def)
  from det perm A B show ?thesis by blast
qed

section \<open>Properties of \<open>answer\<close> and \<open>retrieve_candidates\<close>\<close>

lemma dropWhile_all: "(\<forall>c \<in> set s. P c) \<Longrightarrow> dropWhile P s = []"
  by (induction s) simp_all

lemma py_strip_whitespace:
  assumes "\<forall>c \<in> set s. py_isspace c"
  shows "py_strip s = []"
  using assms by (simp add: py_strip_def dropWhile_all)

text \<open>
  C3. For a \<open>search_query\<close> that is empty or consists of whitespace only, whatever the
  other arguments are, \<open>answer\<close> returns the empty-question message with a new empty
  list, and with an empty timing dict exactly when \<open>measure_time\<close> is set; no call is
  recorded (neither \<open>retrieve_candidates\<close> nor \<open>rerank\<close> nor the generator nor any of
  their collaborators has been called), no dict is written and the clock is not read.
\<close>

theorem answer_empty_question:
  assumes "\<forall>c \<in> set search_query. py_isspace c"
  shows "\<exists>r w'. answer json_loads self (Some search_query) question llm_callable measure_time w =
           (Inr (MSG_EMPTY_QUESTION, r, if measure_time then Some Map.empty else None), w') \<and>
         lists w' r = [] \<and> calls w' = calls w \<and> dicts w' = dicts w \<and> ticks w' = ticks w"
proof -
  from assms have e: "py_strip search_query = []" by (rule py_strip_whitespace)
  have "\<exists>r w'. answer_body json_loads self llm_callable measure_time search_query q w =
           (Inr (MSG_EMPTY_QUESTION, r, if measure_time then Some Map.empty else None), w') \<and>
         lists w' r = [] \<and> calls w' = calls w \<and> dicts w' = dicts w \<and> ticks w' = ticks w" for q
    by (simp add: answer_body_def e new_list_def)
  then show ?thesis
    by (cases question) (simp_all add: answer_def)
qed

theorem answer_empty_question_witness:
  "py_isspace 32 \<and> py_isspace 9 \<and> py_isspace 160 \<and> py_isspace 10 \<and>
   (\<exists>r w'. answer demo_json_loads demo_engine (Some [32, 9, 160, 10]) (Some (ascii ''why''))
              demo_llm True demo_world =
           (Inr (MSG_EMPTY_QUESTION, r, if True then Some Map.empty else None), w') \<and>
         lists w' r = [] \<and> calls w' = calls demo_world \<and> dicts w' = dicts demo_world \<and>
         ticks w' = ticks demo_world)"
proof -
  have h: "\<forall>c \<in> set [32, 9, 160, 10]. py_isspace c"
    by (simp add: py_isspace_def)
  have s: "py_isspace 32 \<and> py_isspace 9 \<and> py_isspace 160 \<and> py_isspace 10"
    by (simp add: py_isspace_def)
  from answer_empty_question [OF h] s show ?thesis by blast
qed

lemma new_list_frame [simp]:
  "fst (new_list xs w) = next_list w"
  "dicts (snd (new_list xs w)) = dicts w"
  "lists (snd (new_list xs w)) = (lists w)(next_list w := xs)"
  "next_dict (snd (new_list xs w)) = next_dict w"
  "next_list (snd (new_list xs w)) = Suc (next_list w)"
  "calls (snd (new_list xs w)) = calls w"
  "ticks (snd (new_list xs w)) = ticks w"
  by (simp_all add: new_list_def)

lemma new_dict_frame [simp]:
  "fst (new_dict d w) = next_dict w"
  "dicts (snd (new_dict d w)) = (dicts w)(next_dict w := d)"
  "lists (snd (new_dict d w)) = lists w"
  "next_dict (snd (new_dict d w)) = Suc (next_dict w)"
  "next_list (snd (new_dict d w)) = next_list w"
  "calls (snd (new_dict d w)) = calls w"
  "ticks (snd (new_dict d w)) = ticks w"
  by (simp_all add: new_dict_def)

lemma list_append_frame [simp]:
  "dicts (list_append l a w) = dicts w"
  "lists (list_append l a w) = (lists w)(l := lists w l @ [a])"
  "next_dict (list_append l a w) = next_dict w"
  "next_list (list_append l a w) = next_list w"
  "calls (list_append l a w) = calls w"
  "ticks (list_append l a w) = ticks w"
  by (simp_all add: list_append_def)

lemma append_rows_step:
  "append_rows json_loads l (f # rest) w =
     (case metadata_dict json_loads (f_metadata f) of
        Inl e \<Rightarrow> (Inl e, w)
      | Inr md \<Rightarrow>
          append_rows json_loads l rest
            (list_append l (next_dict w) (snd (new_dict (candidate_of f md) w))))"
  by (simp add: new_dict_def split: sum.splits)

lemma append_rows_result:
  assumes "append_rows json_loads l rows w = (Inr u, w')"
    and "\<forall>a \<in> set (lists w l). a < next_dict w"
  shows "\<exists>cs. length cs = length rows \<and>
           map (dicts w') (lists w' l) = map (dicts w) (lists w l) @ cs \<and>
           (\<forall>i < length rows. \<exists>md.
              metadata_dict json_loads (f_metadata (rows ! i)) = Inr md \<and>
              cs ! i = candidate_of (rows ! i) md) \<and>
           calls w' = calls w \<and> next_list w' = next_list w \<and> ticks w' = ticks w"
  using assms
proof (induction rows arbitrary: w)
  case Nil
  then show ?case by simp
next
  case (Cons f rest)
  from Cons.prems(1) obtain md where md: "metadata_dict json_loads (f_metadata f) = Inr md"
    unfolding append_rows_step by (auto split: sum.splits)
  define c where "c = candidate_of f md"
  define w1 where "w1 = list_append l (next_dict w) (snd (new_dict c w))"
  from Cons.prems(1) md have run: "append_rows json_loads l rest w1 = (Inr u, w')"
    unfolding append_rows_step w1_def c_def by simp
  have l1: "lists w1 l = lists w l @ [next_dict w]" and n1: "next_dict w1 = Suc (next_dict w)"
    and d1: "dicts w1 = (dicts w)(next_dict w := c)"
    by (simp_all add: w1_def)
  have fresh: "\<forall>a \<in> set (lists w1 l). a < next_dict w1"
    using Cons.prems(2) by (auto simp: l1 n1)
  from Cons.IH [OF run fresh] obtain cs where cs: "length cs = length rest"
    "map (dicts w') (lists w' l) = map (dicts w1) (lists w1 l) @ cs"
    "\<forall>i < length rest. \<exists>md.
        metadata_dict json_loads (f_metadata (rest ! i)) = Inr md \<and>
        cs ! i = candidate_of (rest ! i) md"
    "calls w' = calls w1" "next_list w' = next_list w1" "ticks w' = ticks w1"
    by blast
  have old: "map (dicts w1) (lists w l) = map (dicts w) (lists w l)"
    using Cons.prems(2) by (auto simp: d1)
  have m: "map (dicts w') (lists w' l) = map (dicts w) (lists w l) @ (c # cs)"
    by (simp add: cs(2) l1 old) (simp add: d1)
  have each: "\<forall>i < length (f # rest). \<exists>md.
        metadata_dict json_loads (f_metadata ((f # rest) ! i)) = Inr md \<and>
        (c # cs) ! i = candidate_of ((f # rest) ! i) md"
  proof (intro allI impI)
    fix i assume "i < length (f # rest)"
    then show "\<exists>md. metadata_dict json_loads (f_metadata ((f # rest) ! i)) = Inr md \<and>
        (c # cs) ! i = candidate_of ((f # rest) ! i) md"
      using cs(3) md by (cases i) (simp_all add: c_def)
  qed
  have "calls w' = calls w" "next_list w' = next_list w" "ticks w' = ticks w"
    by (simp_all add: cs(4,5,6) w1_def)
  with cs(1) m each show ?case
    by (intro exI [of _ "c # cs"]) simp
qed


lemma retrieve_candidates_result:
  assumes "retrieve_candidates json_loads self question w = (Inr l, w')"
  shows "\<exists>q_emb rest rows.
           encode (embed_model self) [question] = q_emb # rest \<and>
           fetch (conn self) q_emb (top_k_retrieve self) = Inr rows \<and>
           l = next_list w \<and>
           length (lists w' l) = length rows \<and>
           (\<forall>i < length rows. \<exists>md.
              metadata_dict json_loads (f_metadata (rows ! i)) = Inr md \<and>
              dicts w' (lists w' l ! i) = candidate_of (rows ! i) md) \<and>
           calls w' = calls w @ [Call_retrieve_candidates question, Call_encode [question],
                                 Call_execute q_emb (top_k_retrieve self)] \<and>
           ticks w' = ticks w"
proof -
  from assms obtain q_emb rest where enc: "encode (embed_model self) [question] = q_emb # rest"
    by (auto simp: retrieve_candidates_def Let_def split: list.splits)
  define w2 where "w2 = log_call (Call_execute q_emb (top_k_retrieve self))
      (log_call (Call_encode [question]) (log_call (Call_retrieve_candidates question) w))"
  from assms enc obtain rows where
    sel: "fetch (conn self) q_emb (top_k_retrieve self) = Inr rows"
    by (auto simp: retrieve_candidates_def Let_def split: sum.splits)
  define w3 where "w3 = snd (new_list [] w2)"
  from assms enc sel have run: "append_rows json_loads (next_list w) rows w3 = (Inr (), w')"
    and l: "l = next_list w"
    by (auto simp: retrieve_candidates_def Let_def w2_def w3_def new_list_def
             split: prod.splits sum.splits)
  have "\<forall>a \<in> set (lists w3 (next_list w)). a < next_dict w3"
    by (simp add: w3_def w2_def)
  from append_rows_result [OF run this] obtain cs where cs: "length cs = length rows"
    "map (dicts w') (lists w' (next_list w)) = map (dicts w3) (lists w3 (next_list w)) @ cs"
    "\<forall>i < length rows. \<exists>md.
        metadata_dict json_loads (f_metadata (rows ! i)) = Inr md \<and>
        cs ! i = candidate_of (rows ! i) md"
    "calls w' = calls w3" "ticks w' = ticks w3"
    by blast
  have "lists w3 (next_list w) = []" by (simp add: w3_def w2_def)
  with cs(2) have m: "map (dicts w') (lists w' (next_list w)) = cs" by simp
  then have len: "length (lists w' (next_list w)) = length rows"
    using cs(1) by (metis length_map)
  have nth: "dicts w' (lists w' (next_list w) ! i) = cs ! i" if "i < length rows" for i
    using that m len by (metis nth_map)
  have c: "calls w' = calls w @ [Call_retrieve_candidates question, Call_encode [question],
                                 Call_execute q_emb (top_k_retrieve self)]"
    and t: "ticks w' = ticks w"
    by (simp_all add: cs(4,5) w3_def w2_def)
  from enc sel l len nth cs(3) c t show ?thesis
    by (intro exI [of _ q_emb] exI [of _ rest] exI [of _ rows]) simp
qed









lemma read_timer_frame [simp]:
  "dicts (snd (read_timer b w)) = dicts w"
  "lists (snd (read_timer b w)) = lists w"
  "next_dict (snd (read_timer b w)) = next_dict w"
  "next_list (snd (read_timer b w)) = next_list w"
  "calls (snd (read_timer b w)) = calls w"
  by (simp_all add: read_timer_def time_time_def)

text \<open>
  C4. For a \<open>search_query\<close> that is not empty or whitespace-only, when the call of
  \<open>retrieve_candidates\<close> that \<open>answer\<close> makes returns an empty list, \<open>answer\<close> returns
  the no-candidates message with a new empty list (and a timing dict exactly when
  \<open>measure_time\<close> is set), and the calls recorded during \<open>answer\<close> are those of the
  retrieval alone: neither \<open>rerank\<close> nor the cross-encoder nor the generator is called.
\<close>

theorem answer_no_candidates:
  assumes "py_strip search_query \<noteq> []"
    and "retrieve_candidates json_loads self search_query (snd (read_timer measure_time w)) =
           (Inr l, w2)"
    and "lists w2 l = []"
  shows "\<exists>r t w'. answer json_loads self (Some search_query) question llm_callable measure_time w =
           (Inr (MSG_NO_CANDIDATES, r, t), w') \<and>
         lists w' r = [] \<and> (t = None \<longleftrightarrow> \<not> measure_time) \<and>
         (\<exists>q_emb. calls w' = calls w @
            [Call_retrieve_candidates search_query, Call_encode [search_query],
             Call_execute q_emb (top_k_retrieve self)])"
proof -
  from retrieve_candidates_result [OF assms(2)] obtain q_emb where
    c: "calls w2 = calls w @ [Call_retrieve_candidates search_query, Call_encode [search_query],
             Call_execute q_emb (top_k_retrieve self)]"
    by auto
  define w3 where "w3 = snd (read_timer measure_time w2)"
  define t where "t = map_option
       (\<lambda>t. t(''retrieve_time'' \<mapsto> fst (read_timer measure_time w2) -
                                     fst (read_timer measure_time w),
              ''num_candidates'' \<mapsto> real (length (lists w3 l))))
       (if measure_time then Some Map.empty else None)"
  have body: "answer_body json_loads self llm_callable measure_time search_query q w =
      (Inr (MSG_NO_CANDIDATES, next_list w3, t), snd (new_list [] w3))" for q
    using assms
    by (simp add: answer_body_def Let_def case_prod_unfold w3_def t_def)
  have ans: "answer json_loads self (Some search_query) question llm_callable measure_time w =
      (Inr (MSG_NO_CANDIDATES, next_list w3, t), snd (new_list [] w3))"
    by (cases question) (simp_all add: answer_def body)
  have "lists (snd (new_list [] w3)) (next_list w3) = []" by simp
  moreover have "t = None \<longleftrightarrow> \<not> measure_time" by (simp add: t_def)
  moreover have "calls (snd (new_list [] w3)) = calls w @
            [Call_retrieve_candidates search_query, Call_encode [search_query],
             Call_execute q_emb (top_k_retrieve self)]"
    by (simp add: w3_def c)
  ultimately show ?thesis using ans by blast
qed

lemma empty_retrieve_run:
  "fst (retrieve_candidates demo_json_loads empty_engine (ascii ''q'') demo_world) = Inr 2 \<and>
   lists (snd (retrieve_candidates demo_json_loads empty_engine (ascii ''q'') demo_world)) 2 = []"
  by (simp add: retrieve_candidates_def Let_def demo_engine_def empty_engine_def demo_world_def
      demo_encode_def log_call_def new_list_def ascii_def)

theorem answer_no_candidates_witness:
  "py_strip (ascii ''q'') \<noteq> [] \<and>
   retrieve_candidates demo_json_loads empty_engine (ascii ''q'')
       (snd (read_timer False demo_world)) =
     (Inr 2, snd (retrieve_candidates demo_json_loads empty_engine (ascii ''q'') demo_world)) \<and>
   lists (snd (retrieve_candidates demo_json_loads empty_engine (ascii ''q'') demo_world)) 2 = [] \<and>
   (\<exists>r t w'. answer demo_json_loads empty_engine (Some (ascii ''q'')) None demo_llm False
                demo_world = (Inr (MSG_NO_CANDIDATES, r, t), w') \<and>
         lists w' r = [] \<and> (t = None \<longleftrightarrow> \<not> False) \<and>
         (\<exists>q_emb. calls w' = calls demo_world @
            [Call_retrieve_candidates (ascii ''q''), Call_encode [ascii ''q''],
             Call_execute q_emb (top_k_retrieve empty_engine)]))"
proof -
  have h1: "py_strip (ascii ''q'') \<noteq> []"
    by (simp add: py_strip_def py_isspace_def ascii_def)
  have rt: "snd (read_timer False demo_world) = demo_world" by (simp add: read_timer_def)
  have h2: "retrieve_candidates demo_json_loads empty_engine (ascii ''q'')
       (snd (read_timer False demo_world)) =
     (Inr 2, snd (retrieve_candidates demo_json_loads empty_engine (ascii ''q'') demo_world))"
    unfolding rt using empty_retrieve_run by (simp add: prod_eq_iff)
  have h3: "lists (snd (retrieve_candidates demo_json_loads empty_engine (ascii ''q'')
                          demo_world)) 2 = []"
    using empty_retrieve_run by simp
  from answer_no_candidates [OF h1 h2 h3] h1 h2 h3 show ?thesis by (intro conjI)
qed

end
